theory Spec2Isabelle
  imports Main "HOL-Library.AList" "HOL-Library.Multiset"
begin

section \<open>Parsed JSON values\<close>

text \<open>
  \<^verbatim>\<open>tools/clean_annotation_file_from_labels.py\<close> works on the value that
  \<^verbatim>\<open>json.load\<close> returns: \<^verbatim>\<open>None\<close>, a \<^verbatim>\<open>bool\<close>, an
  \<^verbatim>\<open>int\<close>, a \<^verbatim>\<open>float\<close>, a \<^verbatim>\<open>str\<close>, a \<^verbatim>\<open>list\<close> or a
  \<^verbatim>\<open>dict\<close> with string keys. A \<^verbatim>\<open>dict\<close> keeps its keys in insertion order, so it
  is an association list; lookup reads the first entry of a key and a parsed
  \<^verbatim>\<open>dict\<close> has every key once. Strings are byte strings (UTF-8).

  Of a \<^verbatim>\<open>float\<close> the program only ever asks whether it equals an integer of the
  removal set, so a float is kept by its exact value: \<open>Finite m e\<close> stands for
  \<open>m * 2 ^ e\<close>, and infinities and NaN equal no integer.
\<close>

datatype pyfloat = Finite int int | Infinite bool | NaN

datatype json =
    JNull
  | JBool bool
  | JInt int
  | JFloat pyfloat
  | JString string
  | JArray "json list"
  | JObject "(string \<times> json) list"

text \<open>
  The exceptions the program raises or lets through. Every constructor carries the
  text that \<^verbatim>\<open>str(e)\<close> gives, except \<open>KeyError\<close>, which carries the missing key
  (\<^verbatim>\<open>str(KeyError('id'))\<close> is the quoted key). \<^verbatim>\<open>IOError\<close> is Python 3's alias of
  \<^verbatim>\<open>OSError\<close>. The texts of the interpreter's own \<^verbatim>\<open>TypeError\<close> and
  \<^verbatim>\<open>AttributeError\<close> are those of CPython 3.12.
\<close>

datatype error =
    FileNotFoundError string
  | JSONDecodeError string
  | ValueError string
  | OSError string
  | KeyError string
  | TypeError string
  | AttributeError string
  | OtherError string

definition and_then :: "error + 'a \<Rightarrow> ('a \<Rightarrow> error + 'b) \<Rightarrow> error + 'b" where
  "and_then m f = (case m of Inl e \<Rightarrow> Inl e | Inr x \<Rightarrow> f x)"

definition quoted :: "string \<Rightarrow> string" where
  "quoted s = CHR 0x27 # s @ [CHR 0x27]"

fun type_name :: "json \<Rightarrow> string" where
  "type_name JNull = ''NoneType''"
| "type_name (JBool _) = ''bool''"
| "type_name (JInt _) = ''int''"
| "type_name (JFloat _) = ''float''"
| "type_name (JString _) = ''str''"
| "type_name (JArray _) = ''list''"
| "type_name (JObject _) = ''dict''"

subsection \<open>The operations of Python the filter applies to a parsed value\<close>

text \<open>\<^verbatim>\<open>sub in s\<close> on two strings: \<open>sub\<close> occurs in \<open>s\<close> as a contiguous run.\<close>

fun py_str_contains :: "string \<Rightarrow> string \<Rightarrow> bool" where
  "py_str_contains sub [] = (sub = [])"
| "py_str_contains sub (c # cs) = (take (length sub) (c # cs) = sub \<or> py_str_contains sub cs)"

text \<open>\<^verbatim>\<open>k in data\<close> for a string \<open>k\<close>.\<close>

fun py_contains :: "string \<Rightarrow> json \<Rightarrow> error + bool" where
  "py_contains k (JObject kv) = Inr (k \<in> set (map fst kv))"
| "py_contains k (JArray xs) = Inr (JString k \<in> set xs)"
| "py_contains k (JString s) = Inr (py_str_contains k s)"
| "py_contains k d =
     Inl (TypeError (''argument of type '' @ quoted (type_name d) @ '' is not iterable''))"

text \<open>\<^verbatim>\<open>x[k]\<close> for a string \<open>k\<close>.\<close>

fun py_getitem :: "json \<Rightarrow> string \<Rightarrow> error + json" where
  "py_getitem (JObject kv) k = (case map_of kv k of Some v \<Rightarrow> Inr v | None \<Rightarrow> Inl (KeyError k))"
| "py_getitem (JArray xs) k = Inl (TypeError ''list indices must be integers or slices, not str'')"
| "py_getitem (JString s) k =
     Inl (TypeError (''string indices must be integers, not '' @ quoted ''str''))"
| "py_getitem d k = Inl (TypeError (quoted (type_name d) @ '' object is not subscriptable''))"

text \<open>\<^verbatim>\<open>x[k] = v\<close> for a string \<open>k\<close>: an existing key keeps its place.\<close>

fun py_setitem :: "json \<Rightarrow> string \<Rightarrow> json \<Rightarrow> error + json" where
  "py_setitem (JObject kv) k v = Inr (JObject (AList.update k v kv))"
| "py_setitem (JArray xs) k v = Inl (TypeError ''list indices must be integers or slices, not str'')"
| "py_setitem d k v =
     Inl (TypeError (quoted (type_name d) @ '' object does not support item assignment''))"

text \<open>\<^verbatim>\<open>len(x)\<close>.\<close>

fun py_len :: "json \<Rightarrow> error + nat" where
  "py_len (JArray xs) = Inr (length xs)"
| "py_len (JObject kv) = Inr (length kv)"
| "py_len (JString s) = Inr (length s)"
| "py_len d = Inl (TypeError (''object of type '' @ quoted (type_name d) @ '' has no len()''))"

text \<open>\<^verbatim>\<open>x.copy()\<close>: lists and dicts have the method, the other values do not.\<close>

fun py_copy :: "json \<Rightarrow> error + json" where
  "py_copy (JArray xs) = Inr (JArray xs)"
| "py_copy (JObject kv) = Inr (JObject kv)"
| "py_copy d =
     Inl (AttributeError (quoted (type_name d) @ '' object has no attribute '' @ quoted ''copy''))"

text \<open>
  The elements a \<^verbatim>\<open>for\<close> clause runs through: those of a list, the keys of a dict, the
  characters of a string.
\<close>

fun py_iter :: "json \<Rightarrow> error + json list" where
  "py_iter (JArray xs) = Inr xs"
| "py_iter (JObject kv) = Inr (map (\<lambda>p. JString (fst p)) kv)"
| "py_iter (JString s) = Inr (map (\<lambda>c. JString [c]) s)"
| "py_iter d = Inl (TypeError (quoted (type_name d) @ '' object is not iterable''))"

text \<open>The integer a float equals, if any.\<close>

fun float_int :: "pyfloat \<Rightarrow> int option" where
  "float_int (Finite m e) =
     (if 0 \<le> e then Some (m * 2 ^ nat e)
      else if m mod 2 ^ nat (- e) = 0 then Some (m div 2 ^ nat (- e)) else None)"
| "float_int (Infinite _) = None"
| "float_int NaN = None"

text \<open>
  \<^verbatim>\<open>v in S\<close> for a set \<open>S\<close> of integers: the value is hashed, then compared. Lists and
  dicts cannot be hashed; \<^verbatim>\<open>True\<close> equals 1, \<^verbatim>\<open>False\<close> equals 0, \<^verbatim>\<open>1.0\<close> equals 1; a
  string or \<^verbatim>\<open>None\<close> equals no integer.
\<close>

fun py_in :: "json \<Rightarrow> int set \<Rightarrow> error + bool" where
  "py_in (JInt n) S = Inr (n \<in> S)"
| "py_in (JBool b) S = Inr ((if b then 1 else 0) \<in> S)"
| "py_in (JFloat f) S = Inr (case float_int f of Some n \<Rightarrow> n \<in> S | None \<Rightarrow> False)"
| "py_in (JString s) S = Inr False"
| "py_in JNull S = Inr False"
| "py_in d S = Inl (TypeError (''unhashable type: '' @ quoted (type_name d)))"

section \<open>The filter\<close>

text \<open>
  The test \<^verbatim>\<open>x[key] in S\<close>, and the two comprehensions
  \<^verbatim>\<open>[x for x in xs if x[key] not in S]\<close> (\<open>wanted = False\<close>) and
  \<^verbatim>\<open>[x for x in xs if x[key] in S]\<close> (\<open>wanted = True\<close>). The elements are tested in
  order and the first test that raises ends the comprehension.
\<close>

definition test :: "string \<Rightarrow> int set \<Rightarrow> json \<Rightarrow> error + bool" where
  "test key S x = and_then (py_getitem x key) (\<lambda>v. py_in v S)"

fun select :: "string \<Rightarrow> int set \<Rightarrow> bool \<Rightarrow> json list \<Rightarrow> error + json list" where
  "select key S wanted [] = Inr []"
| "select key S wanted (x # xs) =
     and_then (test key S x) (\<lambda>b.
     and_then (select key S wanted xs) (\<lambda>ys.
     Inr (if b = wanted then x # ys else ys)))"

text \<open>
  What lines 39 to 60 of \<^verbatim>\<open>clean_coco_annotations\<close> leave behind: the filtered
  \<^verbatim>\<open>data\<close>, \<^verbatim>\<open>categories_removed\<close>, \<^verbatim>\<open>annotations_removed\<close> and the two original
  counts.
\<close>

record filtered =
  document :: json
  removed_categories :: "json list"
  removed_annotations :: "json list"
  categories_before_count :: nat
  annotations_before_count :: nat

definition filter_document :: "json \<Rightarrow> int set \<Rightarrow> error + filtered" where
  "filter_document data S =
     and_then (py_contains ''categories'' data) (\<lambda>has_categories.
     if \<not> has_categories
     then Inl (ValueError (quoted ''categories'' @ '' field not found in annotation file''))
     else
     and_then (py_contains ''annotations'' data) (\<lambda>has_annotations.
     if \<not> has_annotations
     then Inl (ValueError (quoted ''annotations'' @ '' field not found in annotation file''))
     else
     and_then (and_then (py_getitem data ''categories'') py_len) (\<lambda>original_categories_count.
     and_then (and_then (py_getitem data ''annotations'') py_len) (\<lambda>original_annotations_count.
     and_then (and_then (py_getitem data ''categories'') py_copy) (\<lambda>categories_before.
     and_then (and_then (and_then (py_getitem data ''categories'') py_iter)
                 (select ''id'' S False)) (\<lambda>categories_kept.
     and_then (py_setitem data ''categories'' (JArray categories_kept)) (\<lambda>data1.
     and_then (and_then (py_iter categories_before) (select ''id'' S True)) (\<lambda>categories_removed.
     and_then (and_then (py_getitem data1 ''annotations'') py_copy) (\<lambda>annotations_before.
     and_then (and_then (and_then (py_getitem data1 ''annotations'') py_iter)
                 (select ''category_id'' S False)) (\<lambda>annotations_kept.
     and_then (py_setitem data1 ''annotations'' (JArray annotations_kept)) (\<lambda>data2.
     and_then (and_then (py_iter annotations_before) (select ''category_id'' S True))
       (\<lambda>annotations_removed.
     Inr \<lparr>document = data2,
          removed_categories = categories_removed,
          removed_annotations = annotations_removed,
          categories_before_count = original_categories_count,
          annotations_before_count = original_annotations_count\<rparr>))))))))))))"

subsection \<open>The words of the specification\<close>

text \<open>
  The sequence a document holds under a top-level key (empty when the document is
  not a mapping or holds no sequence there).
\<close>

definition seq_of :: "string \<Rightarrow> json \<Rightarrow> json list" where
  "seq_of k d =
     (case d of
        JObject kv \<Rightarrow> (case map_of kv k of Some (JArray xs) \<Rightarrow> xs | _ \<Rightarrow> [])
      | _ \<Rightarrow> [])"

text \<open>
  A value is in the removal set when it equals one of its integers, as Python compares
  them.
\<close>

fun in_removal_set :: "int set \<Rightarrow> json \<Rightarrow> bool" where
  "in_removal_set S (JInt n) = (n \<in> S)"
| "in_removal_set S (JBool b) = ((if b then 1 else 0) \<in> S)"
| "in_removal_set S (JFloat f) = (case float_int f of Some n \<Rightarrow> n \<in> S | None \<Rightarrow> False)"
| "in_removal_set S _ = False"

text \<open>The record \<open>c\<close> has, under \<open>key\<close>, an identifier of the removal set.\<close>

definition refers :: "string \<Rightarrow> int set \<Rightarrow> json \<Rightarrow> bool" where
  "refers key S c =
     (case c of
        JObject kv \<Rightarrow> (case map_of kv key of Some v \<Rightarrow> in_removal_set S v | None \<Rightarrow> False)
      | _ \<Rightarrow> False)"

text \<open>
  A record with an integer under \<open>key\<close>, and a document of the data model: a mapping
  whose \<open>categories\<close> is a sequence of records with an integer \<open>id\<close> and whose
  \<open>annotations\<close> is a sequence of records with an integer \<open>category_id\<close>.
\<close>

definition has_int :: "string \<Rightarrow> json \<Rightarrow> bool" where
  "has_int key c =
     (case c of
        JObject kv \<Rightarrow> (case map_of kv key of Some (JInt n) \<Rightarrow> True | _ \<Rightarrow> False)
      | _ \<Rightarrow> False)"

definition well_formed :: "json \<Rightarrow> bool" where
  "well_formed d =
     (case d of
        JObject kv \<Rightarrow>
          (case (map_of kv ''categories'', map_of kv ''annotations'') of
             (Some (JArray cs), Some (JArray as)) \<Rightarrow>
               list_all (has_int ''id'') cs \<and> list_all (has_int ''category_id'') as
           | _ \<Rightarrow> False)
      | _ \<Rightarrow> False)"

section \<open>Files, the library and the command line\<close>

text \<open>
  The namespace \<^verbatim>\<open>parse_args\<close> returns, and the two ways \<^verbatim>\<open>parse_args\<close> ends: with a
  namespace, or with an exit of the process (\<^verbatim>\<open>-h\<close>, an error), which has an exit code
  and the texts written to standard output and to standard error.
\<close>

record args =
  annotation_file :: string
  category_ids :: string
  output_file_opt :: "string option"
  verbose :: bool

datatype parsed = Namespace args | Exit nat "string list" "string list"

text \<open>
  The functions of Python's library the program calls are parameters:
  \<^verbatim>\<open>json.load\<close> on the content of a file (it fails with a \<open>JSONDecodeError\<close> or with
  some other exception), \<^verbatim>\<open>json.dump\<close> with its \<^verbatim>\<open>indent\<close> argument,
  \<^verbatim>\<open>int(s.strip())\<close> (\<open>None\<close> when it raises \<^verbatim>\<open>ValueError\<close>) and the text
  \<^verbatim>\<open>str(v)\<close> an f-string inserts for a parsed value. Of \<^verbatim>\<open>argparse\<close>, the texts it
  writes to standard error when it rejects a command line are a parameter, and so is
  its whole behaviour on the command lines that \<open>parse_args\<close> below does not decide.
\<close>

record 'c py =
  json_load :: "'c \<Rightarrow> error + json"
  json_dump :: "json \<Rightarrow> nat option \<Rightarrow> 'c"
  int_of_stripped :: "string \<Rightarrow> int option"
  str_json :: "json \<Rightarrow> string"
  argparse_error :: "string list \<Rightarrow> string list"
  argparse_other :: "string list \<Rightarrow> parsed"

text \<open>
  A path is a string, and the file system leads every path to a place: \<open>locate\<close>. Two
  spellings of one file (\<^verbatim>\<open>in.json\<close> and \<^verbatim>\<open>./in.json\<close>, a link and its target) are
  different strings with the same place; line 69 of the source compares the strings,
  \<^verbatim>\<open>open\<close> goes to the place. At a place there is
  \<^item> nothing (\<open>Missing\<close>: \<^verbatim>\<open>open\<close> raises \<^verbatim>\<open>FileNotFoundError\<close>);
  \<^item> nothing, and no way to it (\<open>Blocked\<close>, a path below a regular file: \<^verbatim>\<open>open\<close>
    raises another \<^verbatim>\<open>OSError\<close>, such as \<^verbatim>\<open>NotADirectoryError\<close>, with the given text);
  \<^item> a regular file with its content;
  \<^item> something that exists and cannot be opened for reading (\<open>Unopenable\<close>, a
    directory or a file without permission, with the text of the \<^verbatim>\<open>OSError\<close>).
  \<open>write_error\<close> gives, for the paths that cannot be opened for writing, the text of the
  exception. The standard streams are the texts written so far, one per call of
  \<^verbatim>\<open>print\<close>.
\<close>

datatype 'c node = Missing | Blocked string | Regular 'c | Unopenable string

record ('l, 'c) world =
  locate :: "string \<Rightarrow> 'l"
  files :: "'l \<Rightarrow> 'c node"
  write_error :: "string \<Rightarrow> string option"
  stdout :: "string list"
  stderr :: "string list"

definition open_read :: "('l, 'c) world \<Rightarrow> string \<Rightarrow> error + 'c" where
  "open_read w path =
     (case files w (locate w path) of
        Missing \<Rightarrow> Inl (FileNotFoundError (''[Errno 2] No such file or directory: '' @ quoted path))
      | Blocked m \<Rightarrow> Inl (OSError m)
      | Unopenable m \<Rightarrow> Inl (OSError m)
      | Regular c \<Rightarrow> Inr c)"

text \<open>
  \<^verbatim>\<open>Path(path).exists()\<close>. (Only for the empty path do \<^verbatim>\<open>Path\<close> and \<^verbatim>\<open>open\<close> part ways:
  \<^verbatim>\<open>Path\<close> takes it for the current directory, \<^verbatim>\<open>open\<close> finds nothing. With nothing at its
  place the program ends as it really does: line 143 and lines 35 and 166 print the same
  message, and the exit code is 1 on both ways.)
\<close>

definition path_exists :: "('l, 'c) world \<Rightarrow> string \<Rightarrow> bool" where
  "path_exists w path =
     (case files w (locate w path) of
        Regular c \<Rightarrow> True
      | Unopenable m \<Rightarrow> True
      | _ \<Rightarrow> False)"

text \<open>Lines 31 to 37: open, parse, and the two \<^verbatim>\<open>except\<close> clauses.\<close>

definition load_document :: "'c py \<Rightarrow> ('l, 'c) world \<Rightarrow> string \<Rightarrow> error + json" where
  "load_document py w annotation_file_path =
     (case and_then (open_read w annotation_file_path) (json_load py) of
        Inl (FileNotFoundError m) \<Rightarrow>
          Inl (FileNotFoundError (''Annotation file not found: '' @ annotation_file_path))
      | Inl (JSONDecodeError m) \<Rightarrow> Inl (ValueError (''Invalid JSON file: '' @ m))
      | Inl e \<Rightarrow> Inl e
      | Inr data \<Rightarrow> Inr data)"

record stats =
  categories_removed_count :: nat
  categories_removed :: "json list"
  annotations_removed_count :: nat
  original_categories_count :: nat
  original_annotations_count :: nat
  final_categories_count :: nat
  final_annotations_count :: nat
  output_file :: string

text \<open>Lines 73 to 85.\<close>

definition make_stats :: "filtered \<Rightarrow> string \<Rightarrow> error + stats" where
  "make_stats r output_file_path =
     and_then (and_then (py_getitem (document r) ''categories'') py_len) (\<lambda>final_categories.
     and_then (and_then (py_getitem (document r) ''annotations'') py_len) (\<lambda>final_annotations.
     Inr \<lparr>categories_removed_count = length (removed_categories r),
          categories_removed = removed_categories r,
          annotations_removed_count = length (removed_annotations r),
          original_categories_count = categories_before_count r,
          original_annotations_count = annotations_before_count r,
          final_categories_count = final_categories,
          final_annotations_count = final_annotations,
          output_file = output_file_path\<rparr>))"

text \<open>Lines 63 and 64: without an output path the input file is overwritten.\<close>

definition resolved_output :: "string \<Rightarrow> string option \<Rightarrow> string" where
  "resolved_output annotation_file_path output_file_path =
     (case output_file_path of None \<Rightarrow> annotation_file_path | Some p \<Rightarrow> p)"

text \<open>
  \<^verbatim>\<open>clean_coco_annotations(annotation_file_path, category_ids_to_remove, output_file_path)\<close>:
  the exception or the statistics, and the files afterwards. Opening the output for
  writing either fails, and the file is as before, or the whole document is written to
  the place the output path leads to.
\<close>

definition clean_coco_annotations ::
  "'c py \<Rightarrow> ('l, 'c) world \<Rightarrow> string \<Rightarrow> int list \<Rightarrow> string option
     \<Rightarrow> (error + stats) \<times> ('l, 'c) world" where
  "clean_coco_annotations py w annotation_file_path category_ids_to_remove output_file_path =
     (case load_document py w annotation_file_path of
        Inl e \<Rightarrow> (Inl e, w)
      | Inr data \<Rightarrow>
          (case filter_document data (set category_ids_to_remove) of
             Inl e \<Rightarrow> (Inl e, w)
           | Inr r \<Rightarrow>
               (let out = resolved_output annotation_file_path output_file_path
                in case write_error w out of
                     Some m \<Rightarrow> (Inl (OSError (''Failed to write output file: '' @ m)), w)
                   | None \<Rightarrow>
                       (let indent = (if out \<noteq> annotation_file_path then Some 2 else None);
                            w' = w\<lparr>files := (files w)
                                     (locate w out := Regular (json_dump py (document r) indent))\<rparr>
                        in case make_stats r out of
                             Inl e \<Rightarrow> (Inl e, w')
                           | Inr st \<Rightarrow> (Inr st, w')))))"

subsection \<open>The command line\<close>

text \<open>
  \<^verbatim>\<open>parser.parse_args()\<close> for the parser of lines 89 to 126: three positional arguments,
  the third optional, and the flag \<^verbatim>\<open>--verbose\<close> or \<^verbatim>\<open>-v\<close>. An argument that is empty or
  does not start with \<open>-\<close> is positional. An argument \<open>-x...\<close> without a space, whose \<open>x\<close> is
  a letter other than \<open>h\<close> and \<open>v\<close>, is an option the parser does not know, and a command
  line with such an argument is rejected with exit code 2, as one with fewer than two or
  more than three positional arguments is. The positional arguments are taken in order
  when the flags stand before or behind them. Every other command line (\<^verbatim>\<open>-h\<close>, \<^verbatim>\<open>--\<close>,
  abbreviated or joined options, a flag between the positional arguments, arguments
  that look like negative numbers) is left to \<open>argparse_other\<close>.
\<close>

definition plain :: "string \<Rightarrow> bool" where
  "plain t = (case t of [] \<Rightarrow> True | c # cs \<Rightarrow> c \<noteq> CHR ''-'')"

definition verbose_flag :: "string \<Rightarrow> bool" where
  "verbose_flag t = (t = ''-v'' \<or> t = ''--verbose'')"

definition unknown_option :: "string \<Rightarrow> bool" where
  "unknown_option t =
     (case t of
        c # d # cs \<Rightarrow>
          c = CHR ''-''
          \<and> d \<in> set ''abcdefgijklmnopqrstuwxyzABCDEFGHIJKLMNOPQRSTUVWXYZ''
          \<and> CHR '' '' \<notin> set t
      | _ \<Rightarrow> False)"

definition parse_args :: "'c py \<Rightarrow> string list \<Rightarrow> parsed" where
  "parse_args py argv =
     (if \<not> list_all (\<lambda>t. plain t \<or> verbose_flag t \<or> unknown_option t) argv
      then argparse_other py argv
      else if list_ex unknown_option argv
      then Exit 2 [] (argparse_error py argv)
      else
        (let positionals = rev (dropWhile verbose_flag (rev (dropWhile verbose_flag argv)))
         in if \<not> list_all plain positionals
            then argparse_other py argv
            else
              (case positionals of
                 [f, c] \<Rightarrow>
                   Namespace \<lparr>annotation_file = f, category_ids = c, output_file_opt = None,
                              verbose = list_ex verbose_flag argv\<rparr>
               | [f, c, out] \<Rightarrow>
                   Namespace \<lparr>annotation_file = f, category_ids = c, output_file_opt = Some out,
                              verbose = list_ex verbose_flag argv\<rparr>
               | _ \<Rightarrow> Exit 2 [] (argparse_error py argv))))"

text \<open>\<^verbatim>\<open>s.split(",")\<close>.\<close>

fun split_comma :: "string \<Rightarrow> string list" where
  "split_comma [] = ['''']"
| "split_comma (c # cs) =
     (if c = CHR '','' then '''' # split_comma cs
      else (c # hd (split_comma cs)) # tl (split_comma cs))"

text \<open>
  \<^verbatim>\<open>[int(id_str.strip()) for id_str in tokens]\<close>: \<open>None\<close> when a token raises
  \<^verbatim>\<open>ValueError\<close>.
\<close>

fun parse_ids :: "(string \<Rightarrow> int option) \<Rightarrow> string list \<Rightarrow> int list option" where
  "parse_ids f [] = Some []"
| "parse_ids f (t # ts) =
     (case f t of
        None \<Rightarrow> None
      | Some n \<Rightarrow> (case parse_ids f ts of None \<Rightarrow> None | Some ns \<Rightarrow> Some (n # ns)))"

fun str_error :: "error \<Rightarrow> string" where
  "str_error (KeyError k) = quoted k"
| "str_error (FileNotFoundError m) = m"
| "str_error (JSONDecodeError m) = m"
| "str_error (ValueError m) = m"
| "str_error (OSError m) = m"
| "str_error (TypeError m) = m"
| "str_error (AttributeError m) = m"
| "str_error (OtherError m) = m"

text \<open>The decimal text of a count.\<close>

fun show_nat :: "nat \<Rightarrow> string" where
  "show_nat n =
     (if n < 10 then [''0123456789'' ! n]
      else show_nat (n div 10) @ [''0123456789'' ! (n mod 10)])"

declare show_nat.simps [simp del]

definition print_out :: "('l, 'c) world \<Rightarrow> string \<Rightarrow> ('l, 'c) world" where
  "print_out w s = w\<lparr>stdout := stdout w @ [s]\<rparr>"

definition print_err :: "('l, 'c) world \<Rightarrow> string \<Rightarrow> ('l, 'c) world" where
  "print_err w s = w\<lparr>stderr := stderr w @ [s]\<rparr>"

text \<open>Line 163, the text printed for one removed category.\<close>

definition removed_line :: "'c py \<Rightarrow> json \<Rightarrow> error + string" where
  "removed_line py cat =
     and_then (py_getitem cat ''id'') (\<lambda>i.
     and_then (py_getitem cat ''name'') (\<lambda>n.
     (case cat of
        JObject kv \<Rightarrow>
          Inr (''  - ID '' @ str_json py i @ '': '' @ str_json py n @ '' (supercategory: ''
               @ (case map_of kv ''supercategory'' of None \<Rightarrow> ''none'' | Some s \<Rightarrow> str_json py s)
               @ '')'')
      | _ \<Rightarrow>
          Inl (AttributeError
                 (quoted (type_name cat) @ '' object has no attribute '' @ quoted ''get'')))))"

fun print_removed ::
  "'c py \<Rightarrow> json list \<Rightarrow> ('l, 'c) world \<Rightarrow> error option \<times> ('l, 'c) world" where
  "print_removed py [] w = (None, w)"
| "print_removed py (cat # cats) w =
     (case removed_line py cat of
        Inl e \<Rightarrow> (Some e, w)
      | Inr line \<Rightarrow> print_removed py cats (print_out w line))"

text \<open>Lines 155 to 158; the first line starts with the check mark U+2713.\<close>

definition print_summary :: "('l, 'c) world \<Rightarrow> stats \<Rightarrow> ('l, 'c) world" where
  "print_summary w st =
     print_out (print_out (print_out (print_out w
       ([CHR 0xE2, CHR 0x9C, CHR 0x93] @ '' Successfully cleaned annotation file''))
       (''  Categories removed: '' @ show_nat (categories_removed_count st) @ '' (from ''
          @ show_nat (original_categories_count st) @ '' to ''
          @ show_nat (final_categories_count st) @ '')''))
       (''  Annotations removed: '' @ show_nat (annotations_removed_count st) @ '' (from ''
          @ show_nat (original_annotations_count st) @ '' to ''
          @ show_nat (final_annotations_count st) @ '')''))
       (''  Output file: '' @ output_file st)"

text \<open>
  \<^verbatim>\<open>main\<close> from line 130 on, with the namespace \<open>a\<close>: the exit code of the process (0
  when \<^verbatim>\<open>main\<close> returns, 1 from \<^verbatim>\<open>sys.exit(1)\<close>) and the files and streams afterwards.
  Printing itself is taken to succeed.
\<close>

definition main_parsed :: "'c py \<Rightarrow> args \<Rightarrow> ('l, 'c) world \<Rightarrow> nat \<times> ('l, 'c) world" where
  "main_parsed py a w =
     (case parse_ids (int_of_stripped py) (split_comma (category_ids a)) of
        None \<Rightarrow> (1, print_err w ''Error: Category IDs must be integers separated by commas'')
      | Some ids \<Rightarrow>
          if ids = []
          then (1, print_err w ''Error: At least one category ID must be specified'')
          else
            (if \<not> path_exists w (annotation_file a)
             then (1, print_err w (''Error: Annotation file not found: '' @ annotation_file a))
             else
                 (case clean_coco_annotations py w (annotation_file a) ids (output_file_opt a) of
                    (Inl e, w1) \<Rightarrow> (1, print_err w1 (''Error: '' @ str_error e))
                  | (Inr st, w1) \<Rightarrow>
                      (let w2 = print_summary w1 st
                       in if verbose a \<and> categories_removed st \<noteq> []
                          then
                            (case print_removed py (categories_removed st)
                                    (print_out w2 (CHR 0x0A # ''Removed categories:'')) of
                               (Some e, w3) \<Rightarrow> (1, print_err w3 (''Error: '' @ str_error e))
                             | (None, w3) \<Rightarrow> (0, w3))
                          else (0, w2)))))"

text \<open>
  \<^verbatim>\<open>main\<close> on the command line \<open>argv\<close> (\<^verbatim>\<open>sys.argv[1:]\<close>): when \<^verbatim>\<open>parse_args\<close> exits,
  the process ends with its exit code and its texts written.
\<close>

definition main :: "'c py \<Rightarrow> string list \<Rightarrow> ('l, 'c) world \<Rightarrow> nat \<times> ('l, 'c) world" where
  "main py argv w =
     (case parse_args py argv of
        Exit code out err \<Rightarrow> (code, w\<lparr>stdout := stdout w @ out, stderr := stderr w @ err\<rparr>)
      | Namespace a \<Rightarrow> main_parsed py a w)"

section \<open>Auxiliary notions\<close>

text \<open>
  A value under \<open>categories\<close> or \<open>annotations\<close> on which the filter can succeed is a
  list, or the empty dict (which has nothing to iterate over).
\<close>

definition holds_seq :: "json \<Rightarrow> json list \<Rightarrow> bool" where
  "holds_seq v xs \<longleftrightarrow> v = JArray xs \<or> (v = JObject [] \<and> xs = [])"

text \<open>What a successful run leaves behind, written out.\<close>

definition result_of :: "(string \<times> json) list \<Rightarrow> int set \<Rightarrow> json list \<Rightarrow> json list \<Rightarrow> filtered" where
  "result_of kv S cs as =
     \<lparr>document = JObject (AList.update ''annotations''
                   (JArray (filter (\<lambda>a. \<not> refers ''category_id'' S a) as))
                   (AList.update ''categories''
                      (JArray (filter (\<lambda>c. \<not> refers ''id'' S c) cs)) kv)),
      removed_categories = filter (refers ''id'' S) cs,
      removed_annotations = filter (refers ''category_id'' S) as,
      categories_before_count = length cs,
      annotations_before_count = length as\<rparr>"

subsection \<open>Example documents and an example environment\<close>

definition category :: "int \<Rightarrow> string \<Rightarrow> json" where
  "category i n = JObject [(''id'', JInt i), (''name'', JString n)]"

definition annotation :: "int \<Rightarrow> int \<Rightarrow> json" where
  "annotation i c = JObject [(''id'', JInt i), (''image_id'', JInt 1), (''category_id'', JInt c)]"

text \<open>
  Three categories 0, 1 and 39, and four annotations of the categories 0, 1, 39
  and 1.
\<close>

definition three_categories :: json where
  "three_categories =
     JObject [(''images'', JArray [JObject [(''id'', JInt 1), (''file_name'', JString ''a.png'')]]),
              (''categories'', JArray [category 0 ''a'', category 1 ''b'', category 39 ''c'']),
              (''annotations'',
                 JArray [annotation 10 0, annotation 11 1, annotation 12 39, annotation 13 1])]"

text \<open>An annotation of category 7, which the document does not define.\<close>

definition undefined_category :: json where
  "undefined_category =
     JObject [(''categories'', JArray [category 1 ''b'']),
              (''annotations'', JArray [annotation 10 7, annotation 11 1])]"

text \<open>The same annotations, in a document that does define category 7.\<close>

definition defined_category :: json where
  "defined_category =
     JObject [(''categories'', JArray [category 7 ''g'', category 1 ''b'']),
              (''annotations'', JArray [annotation 10 7, annotation 11 1])]"

text \<open>A document without \<open>annotations\<close>, whose one category is not even a record.\<close>

definition no_annotations :: json where
  "no_annotations = JObject [(''categories'', JArray [JInt 5])]"

text \<open>
  An environment for the examples: the content of a file is the document and the
  indentation it was written with, only the tokens \<open>0\<close>, \<open>2\<close>, \<open>5\<close> and \<open>39\<close> are
  integers, every path can be written, and a path with \<^verbatim>\<open>./\<close> in front leads where the
  path without it leads.
\<close>

definition example_py :: "(json \<times> nat option) py" where
  "example_py =
     \<lparr>json_load = (\<lambda>c. Inr (fst c)),
      json_dump = (\<lambda>d i. (d, i)),
      int_of_stripped = (\<lambda>t. if t = ''0'' then Some 0 else if t = ''2'' then Some 2
                              else if t = ''5'' then Some 5 else if t = ''39'' then Some 39
                              else None),
      str_json = (\<lambda>v. case v of
                         JString s \<Rightarrow> s
                       | JInt n \<Rightarrow> (if 0 \<le> n then show_nat (nat n)
                                   else CHR ''-'' # show_nat (nat (- n)))
                       | _ \<Rightarrow> ''?''),
      argparse_error = (\<lambda>argv. [''usage: clean_annotation_file_from_labels.py ...'',
                                 ''clean_annotation_file_from_labels.py: error: ...'']),
      argparse_other = (\<lambda>argv. Exit 2 [] [])\<rparr>"

definition example_world :: "(string, json \<times> nat option) world" where
  "example_world =
     \<lparr>locate = (\<lambda>p. if take 2 p = ''./'' then drop 2 p else p),
      files = (\<lambda>l. if l = ''in.json'' then Regular (three_categories, None)
                    else if l = ''bad.json'' then Regular (no_annotations, None)
                    else Missing),
      write_error = (\<lambda>p. None),
      stdout = [],
      stderr = []\<rparr>"

text \<open>
  What removing the categories 0 and 39 from the first example and writing the result
  to \<open>out.json\<close> is to give: the document and the statistics.
\<close>

definition three_categories_cleaned :: json where
  "three_categories_cleaned =
     JObject [(''images'', JArray [JObject [(''id'', JInt 1), (''file_name'', JString ''a.png'')]]),
              (''categories'', JArray [category 1 ''b'']),
              (''annotations'', JArray [annotation 11 1, annotation 13 1])]"

definition example_stats :: stats where
  "example_stats =
     \<lparr>categories_removed_count = 2,
      categories_removed = [category 0 ''a'', category 39 ''c''],
      annotations_removed_count = 2,
      original_categories_count = 3,
      original_annotations_count = 4,
      final_categories_count = 1,
      final_annotations_count = 2,
      output_file = ''out.json''\<rparr>"

text \<open>
  Four command lines: the example with \<^verbatim>\<open>--verbose\<close>, a token that is no integer, an
  empty list of identifiers, and an input file that does not exist.
\<close>

definition verbose_argv :: "string list" where
  "verbose_argv = [''in.json'', ''0,39'', ''out.json'', ''--verbose'']"

definition bad_ids_argv :: "string list" where
  "bad_ids_argv = [''in.json'', ''x,2'', ''out.json'']"

definition empty_ids_argv :: "string list" where
  "empty_ids_argv = [''in.json'', '''']"

definition missing_file_argv :: "string list" where
  "missing_file_argv = [''-v'', ''missing.json'', ''5'']"

section \<open>Properties of the filter\<close>

subsection \<open>Sequencing and the comprehensions\<close>

lemma and_then_Inl [simp]: "and_then (Inl e) f = Inl e"
  by (simp add: and_then_def)

lemma and_then_Inr [simp]: "and_then (Inr x) f = f x"
  by (simp add: and_then_def)

lemma and_then_eq_Inr: "and_then m f = Inr y \<longleftrightarrow> (\<exists>x. m = Inr x \<and> f x = Inr y)"
  by (cases m) simp_all

lemma py_in_Inr: "py_in v S = Inr b \<Longrightarrow> in_removal_set S v = b"
  by (cases v) auto

lemma test_refers: "test key S c = Inr b \<Longrightarrow> refers key S c = b"
  by (cases c) (auto simp: test_def refers_def and_then_eq_Inr py_in_Inr split: option.splits)

lemma test_object: "test key S c = Inr b \<Longrightarrow> \<exists>kv. c = JObject kv"
  by (cases c) (auto simp: test_def)

lemma select_iff:
  "select key S w xs = Inr ys \<longleftrightarrow>
     (\<forall>c\<in>set xs. \<exists>b. test key S c = Inr b) \<and> ys = filter (\<lambda>c. refers key S c = w) xs"
proof (induction xs arbitrary: ys)
  case Nil
  show ?case by auto
next
  case (Cons x xs)
  show ?case
  proof (cases "test key S x")
    case (Inl e)
    then show ?thesis by simp
  next
    case (Inr b)
    then have r: "refers key S x = b" by (rule test_refers)
    show ?thesis
      using Inr r Cons.IH by (auto simp add: and_then_eq_Inr)
  qed
qed

lemma has_int_test: "has_int key c \<Longrightarrow> \<exists>b. test key S c = Inr b"
  by (cases c) (auto simp: has_int_def test_def split: option.splits json.splits)

lemma has_int_refers:
  "has_int key c \<Longrightarrow> \<exists>kv n. c = JObject kv \<and> map_of kv key = Some (JInt n) \<and> refers key S c = (n \<in> S)"
  by (cases c) (auto simp: has_int_def refers_def split: option.splits json.splits)

subsection \<open>The successful runs of the filter\<close>

text \<open>
  A run succeeds exactly on a mapping whose \<open>categories\<close> and \<open>annotations\<close> can be
  iterated over and whose entries can all be tested; its result is then
  \<^const>\<open>result_of\<close>.
\<close>

lemma iter_select:
  assumes a: "and_then (py_iter v) (select key S w) = Inr ys"
    and n: "py_len v = Inr n" and c: "py_copy v = Inr v'"
  shows "\<exists>xs. holds_seq v xs \<and> v' = v \<and> n = length xs \<and> py_iter v = Inr xs
           \<and> (\<forall>c\<in>set xs. \<exists>b. test key S c = Inr b)
           \<and> ys = filter (\<lambda>c. refers key S c = w) xs"
proof (cases v)
  case (JObject kv)
  have "kv = []"
  proof (cases kv)
    case (Cons p ps)
    with a JObject show ?thesis by (simp add: test_def)
  qed simp
  with a n c JObject show ?thesis
    by (auto simp: holds_seq_def)
next
  case (JArray xs)
  with a n c show ?thesis by (auto simp: holds_seq_def select_iff)
qed (use a n c in auto)

lemma filter_document_Inr:
  assumes "filter_document D S = Inr r"
  shows "\<exists>kv vc va cs as. D = JObject kv
           \<and> map_of kv ''categories'' = Some vc \<and> map_of kv ''annotations'' = Some va
           \<and> holds_seq vc cs \<and> holds_seq va as
           \<and> (\<forall>c\<in>set cs. \<exists>b. test ''id'' S c = Inr b)
           \<and> (\<forall>a\<in>set as. \<exists>b. test ''category_id'' S a = Inr b)
           \<and> r = result_of kv S cs as"
proof (cases D)
  case (JObject kv)
  from assms obtain vc where vc: "map_of kv ''categories'' = Some vc"
    unfolding JObject filter_document_def
    by (cases "map_of kv ''categories''") (auto simp: map_of_eq_None_iff split: if_splits)
  from assms obtain va where va: "map_of kv ''annotations'' = Some va"
    unfolding JObject filter_document_def
    by (cases "map_of kv ''annotations''") (auto simp: map_of_eq_None_iff split: if_splits)
  have dom: "''categories'' \<in> fst ` set kv" "''annotations'' \<in> fst ` set kv"
    using vc va by (auto dest!: map_of_SomeD intro: rev_image_eqI)
  have va': "map_of (AList.update ''categories'' x kv) ''annotations'' = Some va" for x
    using va by (simp add: update_conv')
  from assms obtain nc na vc' kept_c rem_c va'' kept_a rem_a where
    steps: "py_len vc = Inr nc" "py_len va = Inr na" "py_copy vc = Inr vc'"
      "and_then (py_iter vc) (select ''id'' S False) = Inr kept_c"
      "and_then (py_iter vc') (select ''id'' S True) = Inr rem_c"
      "py_copy va = Inr va''"
      "and_then (py_iter va) (select ''category_id'' S False) = Inr kept_a"
      "and_then (py_iter va'') (select ''category_id'' S True) = Inr rem_a"
    and r: "r = \<lparr>document = JObject (AList.update ''annotations'' (JArray kept_a)
                   (AList.update ''categories'' (JArray kept_c) kv)),
      removed_categories = rem_c, removed_annotations = rem_a,
      categories_before_count = nc, annotations_before_count = na\<rparr>"
    unfolding JObject filter_document_def using vc va dom
    by (auto simp: and_then_eq_Inr va')
  from iter_select [OF steps(4) steps(1) steps(3)] obtain cs where
    cs: "holds_seq vc cs" "vc' = vc" "nc = length cs" "py_iter vc = Inr cs"
      "\<forall>c\<in>set cs. \<exists>b. test ''id'' S c = Inr b" "kept_c = filter (\<lambda>c. refers ''id'' S c = False) cs"
    by blast
  from iter_select [OF steps(7) steps(2) steps(6)] obtain as where
    as: "holds_seq va as" "va'' = va" "na = length as" "py_iter va = Inr as"
      "\<forall>c\<in>set as. \<exists>b. test ''category_id'' S c = Inr b"
      "kept_a = filter (\<lambda>c. refers ''category_id'' S c = False) as"
    by blast
  have "rem_c = filter (refers ''id'' S) cs"
    using steps(5) cs by (simp add: select_iff)
  moreover have "rem_a = filter (refers ''category_id'' S) as"
    using steps(8) as by (simp add: select_iff)
  ultimately have "r = result_of kv S cs as"
    using r cs as by (simp add: result_of_def)
  with JObject vc va cs as show ?thesis by blast
qed (use assms in \<open>auto simp: filter_document_def split: if_splits\<close>)

lemma filter_document_succeeds:
  assumes "map_of kv ''categories'' = Some vc" "map_of kv ''annotations'' = Some va"
    and "holds_seq vc cs" "holds_seq va as"
    and "\<forall>c\<in>set cs. \<exists>b. test ''id'' S c = Inr b"
    and "\<forall>a\<in>set as. \<exists>b. test ''category_id'' S a = Inr b"
  shows "filter_document (JObject kv) S = Inr (result_of kv S cs as)"
proof -
  have dom: "''categories'' \<in> fst ` set kv" "''annotations'' \<in> fst ` set kv"
    using assms(1,2) by (auto dest!: map_of_SomeD intro: rev_image_eqI)
  have va': "map_of (AList.update ''categories'' x kv) ''annotations'' = Some va" for x
    using assms(2) by (simp add: update_conv')
  have c: "py_len vc = Inr (length cs)" "py_copy vc = Inr vc" "py_iter vc = Inr cs"
    using assms(3) by (auto simp: holds_seq_def)
  have a: "py_len va = Inr (length as)" "py_copy va = Inr va" "py_iter va = Inr as"
    using assms(4) by (auto simp: holds_seq_def)
  have sc: "select ''id'' S w cs = Inr (filter (\<lambda>c. refers ''id'' S c = w) cs)" for w
    using assms(5) by (simp add: select_iff)
  have sa: "select ''category_id'' S w as = Inr (filter (\<lambda>c. refers ''category_id'' S c = w) as)" for w
    using assms(6) by (simp add: select_iff)
  show ?thesis
    unfolding filter_document_def using dom
    by (simp add: assms(1,2) va' c a sc sa result_of_def)
qed

lemma seq_of_holds:
  "map_of kv k = Some v \<Longrightarrow> holds_seq v xs \<Longrightarrow> seq_of k (JObject kv) = xs"
  by (auto simp: seq_of_def holds_seq_def)

lemma seq_of_result:
  "seq_of ''categories'' (document (result_of kv S cs as)) = filter (\<lambda>c. \<not> refers ''id'' S c) cs"
  "seq_of ''annotations'' (document (result_of kv S cs as)) = filter (\<lambda>a. \<not> refers ''category_id'' S a) as"
  by (simp_all add: seq_of_def result_of_def update_conv')

lemma well_formed_succeeds:
  assumes "well_formed D"
  shows "\<exists>r. filter_document D S = Inr r"
proof -
  from assms obtain kv cs as where D: "D = JObject kv"
    and c: "map_of kv ''categories'' = Some (JArray cs)"
    and a: "map_of kv ''annotations'' = Some (JArray as)"
    and ints: "list_all (has_int ''id'') cs" "list_all (has_int ''category_id'') as"
    by (auto simp: well_formed_def split: json.splits option.splits)
  have "\<forall>c\<in>set cs. \<exists>b. test ''id'' S c = Inr b"
    using ints(1) by (auto simp: list_all_iff has_int_test)
  moreover have "\<forall>a\<in>set as. \<exists>b. test ''category_id'' S a = Inr b"
    using ints(2) by (auto simp: list_all_iff has_int_test)
  ultimately have "filter_document (JObject kv) S = Inr (result_of kv S cs as)"
    using c a by (intro filter_document_succeeds) (auto simp: holds_seq_def)
  with D show ?thesis by blast
qed

lemma make_stats_result:
  assumes "map_of kv ''categories'' = Some vc" "map_of kv ''annotations'' = Some va"
  shows "make_stats (result_of kv S cs as) p =
     Inr \<lparr>categories_removed_count = length (filter (refers ''id'' S) cs),
          categories_removed = filter (refers ''id'' S) cs,
          annotations_removed_count = length (filter (refers ''category_id'' S) as),
          original_categories_count = length cs,
          original_annotations_count = length as,
          final_categories_count = length (filter (\<lambda>c. \<not> refers ''id'' S c) cs),
          final_annotations_count = length (filter (\<lambda>a. \<not> refers ''category_id'' S a) as),
          output_file = p\<rparr>"
  by (simp add: make_stats_def result_of_def update_conv')

section \<open>The claims\<close>

text \<open>
  C1. For every document and removal set, the categories of the filtered document
  are exactly the categories of the input whose \<open>id\<close> is not in the removal set, in
  their original order. The filter succeeds on every document of the data model, and
  whenever it succeeds the equation holds.
\<close>

theorem categories_filtered:
  "(well_formed D \<longrightarrow> (\<exists>r. filter_document D S = Inr r)) \<and>
   (\<forall>r. filter_document D S = Inr r \<longrightarrow>
      seq_of ''categories'' (document r)
        = filter (\<lambda>c. \<not> refers ''id'' S c) (seq_of ''categories'' D))"
proof (intro conjI allI impI)
  assume "well_formed D"
  then show "\<exists>r. filter_document D S = Inr r" by (rule well_formed_succeeds)
next
  fix r
  assume "filter_document D S = Inr r"
  from filter_document_Inr [OF this] obtain kv vc va cs as where
    "D = JObject kv" "map_of kv ''categories'' = Some vc" "holds_seq vc cs"
    "r = result_of kv S cs as"
    by blast
  then show "seq_of ''categories'' (document r)
        = filter (\<lambda>c. \<not> refers ''id'' S c) (seq_of ''categories'' D)"
    by (simp add: seq_of_result seq_of_holds)
qed

text \<open>Categories 0 and 39 removed from categories 0, 1, 39: category 1 is left.\<close>

theorem categories_filtered_witness:
  "well_formed three_categories \<and>
   (\<exists>r. filter_document three_categories {0, 39} = Inr r
        \<and> seq_of ''categories'' (document r) = [category 1 ''b''])"
proof -
  have wf: "well_formed three_categories"
    by (simp add: well_formed_def three_categories_def has_int_def category_def annotation_def)
  with categories_filtered [of three_categories "{0, 39}"]
  obtain r where run: "filter_document three_categories {0, 39} = Inr r"
    by blast
  with categories_filtered [of three_categories "{0, 39}"]
  have "seq_of ''categories'' (document r)
          = filter (\<lambda>c. \<not> refers ''id'' {0, 39} c) (seq_of ''categories'' three_categories)"
    by blast
  then have "seq_of ''categories'' (document r) = [category 1 ''b'']"
    by (simp add: seq_of_def three_categories_def refers_def category_def)
  with wf run show ?thesis by blast
qed

text \<open>
  C2. For every document and removal set, the annotations of the filtered document
  are exactly the annotations of the input whose \<open>category_id\<close> is not in the removal
  set, in their original order. Only the annotation's own \<open>category_id\<close> decides:
  two documents with the same annotations get the same annotations back, whatever
  their categories are.
\<close>

theorem annotations_filtered:
  "(well_formed D \<longrightarrow> (\<exists>r. filter_document D S = Inr r)) \<and>
   (\<forall>r. filter_document D S = Inr r \<longrightarrow>
      seq_of ''annotations'' (document r)
        = filter (\<lambda>a. \<not> refers ''category_id'' S a) (seq_of ''annotations'' D)
      \<and> (\<forall>D' r'. filter_document D' S = Inr r'
             \<and> seq_of ''annotations'' D' = seq_of ''annotations'' D
           \<longrightarrow> seq_of ''annotations'' (document r') = seq_of ''annotations'' (document r)))"
proof -
  have ann: "seq_of ''annotations'' (document r)
        = filter (\<lambda>a. \<not> refers ''category_id'' S a) (seq_of ''annotations'' D)"
    if "filter_document D S = Inr r" for D r
  proof -
    from filter_document_Inr [OF that] obtain kv vc va cs as where
      "D = JObject kv" "map_of kv ''annotations'' = Some va" "holds_seq va as"
      "r = result_of kv S cs as"
      by blast
    then show ?thesis by (simp add: seq_of_result seq_of_holds)
  qed
  show ?thesis
    by (intro conjI allI impI well_formed_succeeds) (auto simp: ann)
qed

text \<open>
  The annotation of category 7 is removed although no category 7 is defined, and the
  document that does define category 7 gets the same annotations back.
\<close>

theorem annotations_filtered_witness:
  "well_formed undefined_category \<and>
   (\<exists>r r'. filter_document undefined_category {7} = Inr r
        \<and> filter_document defined_category {7} = Inr r'
        \<and> seq_of ''annotations'' (document r) = [annotation 11 1]
        \<and> seq_of ''annotations'' (document r') = seq_of ''annotations'' (document r))"
proof -
  have wf: "well_formed undefined_category"
    by (simp add: well_formed_def undefined_category_def has_int_def category_def annotation_def)
  with annotations_filtered [of undefined_category "{7}"]
  obtain r where run: "filter_document undefined_category {7} = Inr r"
    by blast
  have "well_formed defined_category"
    by (simp add: well_formed_def defined_category_def has_int_def category_def annotation_def)
  with annotations_filtered [of defined_category "{7}"]
  obtain r' where run': "filter_document defined_category {7} = Inr r'"
    by blast
  from annotations_filtered [of undefined_category "{7}"] run
  have "seq_of ''annotations'' (document r)
          = filter (\<lambda>a. \<not> refers ''category_id'' {7} a) (seq_of ''annotations'' undefined_category)"
    by blast
  then have a: "seq_of ''annotations'' (document r) = [annotation 11 1]"
    by (simp add: seq_of_def undefined_category_def refers_def annotation_def)
  have same: "seq_of ''annotations'' defined_category = seq_of ''annotations'' undefined_category"
    by (simp add: seq_of_def undefined_category_def defined_category_def)
  from annotations_filtered [of undefined_category "{7}"] run run' same
  have b: "seq_of ''annotations'' (document r') = seq_of ''annotations'' (document r)"
    by blast
  show ?thesis
    by (intro conjI exI [of _ r] exI [of _ r'] wf run run' a b)
qed

lemma three_categories_wf: "well_formed three_categories"
  by (simp add: well_formed_def three_categories_def has_int_def category_def annotation_def)

text \<open>
  C4. Whenever the filter succeeds, the document is a mapping, the filtered document
  has the same top-level keys in the same order, every key other than \<open>categories\<close>
  and \<open>annotations\<close> has the value it had, and every category and annotation of the
  output is a record of the input, unchanged.
\<close>

theorem other_keys_and_records_unchanged:
  assumes "filter_document D S = Inr r"
  shows "\<exists>kv kv'. D = JObject kv \<and> document r = JObject kv'
           \<and> map fst kv' = map fst kv
           \<and> (\<forall>k. k \<noteq> ''categories'' \<and> k \<noteq> ''annotations'' \<longrightarrow> map_of kv' k = map_of kv k)
           \<and> set (seq_of ''categories'' (document r)) \<subseteq> set (seq_of ''categories'' D)
           \<and> set (seq_of ''annotations'' (document r)) \<subseteq> set (seq_of ''annotations'' D)"
proof -
  from filter_document_Inr [OF assms] obtain kv vc va cs as where
    D: "D = JObject kv" and vc: "map_of kv ''categories'' = Some vc"
    and va: "map_of kv ''annotations'' = Some va"
    and h: "holds_seq vc cs" "holds_seq va as" and r: "r = result_of kv S cs as"
    by blast
  have dom: "''categories'' \<in> fst ` set kv" "''annotations'' \<in> fst ` set kv"
    using vc va by (auto dest!: map_of_SomeD intro: rev_image_eqI)
  define kv' where "kv' = AList.update ''annotations''
                   (JArray (filter (\<lambda>a. \<not> refers ''category_id'' S a) as))
                   (AList.update ''categories''
                      (JArray (filter (\<lambda>c. \<not> refers ''id'' S c) cs)) kv)"
  have doc: "document r = JObject kv'"
    by (simp add: r result_of_def kv'_def)
  have keys: "map fst kv' = map fst kv"
    using dom by (simp add: kv'_def update_keys)
  have vals: "\<forall>k. k \<noteq> ''categories'' \<and> k \<noteq> ''annotations'' \<longrightarrow> map_of kv' k = map_of kv k"
    by (simp add: kv'_def update_conv')
  have "seq_of ''categories'' D = cs" "seq_of ''annotations'' D = as"
    using D vc va h by (simp_all add: seq_of_holds)
  then have subs: "set (seq_of ''categories'' (document r)) \<subseteq> set (seq_of ''categories'' D)"
    "set (seq_of ''annotations'' (document r)) \<subseteq> set (seq_of ''annotations'' D)"
    by (auto simp: r seq_of_result)
  from D doc keys vals subs show ?thesis by blast
qed

text \<open>The \<open>images\<close> of the example document come through as they were.\<close>

theorem other_keys_and_records_unchanged_witness:
  "\<exists>r kv'. filter_document three_categories {0, 39} = Inr r
      \<and> document r = JObject kv'
      \<and> map fst kv' = [''images'', ''categories'', ''annotations'']
      \<and> map_of kv' ''images''
           = Some (JArray [JObject [(''id'', JInt 1), (''file_name'', JString ''a.png'')]])
      \<and> set (seq_of ''annotations'' (document r))
           \<subseteq> {annotation 10 0, annotation 11 1, annotation 12 39, annotation 13 1}"
proof -
  obtain r where r: "filter_document three_categories {0, 39} = Inr r"
    using well_formed_succeeds [OF three_categories_wf] by blast
  from other_keys_and_records_unchanged [OF r]
  obtain kv kv' where D: "three_categories = JObject kv" and doc: "document r = JObject kv'"
    and keys: "map fst kv' = map fst kv"
    and vals: "\<forall>k. k \<noteq> ''categories'' \<and> k \<noteq> ''annotations'' \<longrightarrow> map_of kv' k = map_of kv k"
    and anns: "set (seq_of ''annotations'' (document r)) \<subseteq> set (seq_of ''annotations'' three_categories)"
    by blast
  from D have kv: "kv = [(''images'', JArray [JObject [(''id'', JInt 1), (''file_name'', JString ''a.png'')]]),
             (''categories'', JArray [category 0 ''a'', category 1 ''b'', category 39 ''c'']),
             (''annotations'',
                JArray [annotation 10 0, annotation 11 1, annotation 12 39, annotation 13 1])]"
    by (simp add: three_categories_def)
  have k: "map fst kv' = [''images'', ''categories'', ''annotations'']"
    using keys by (simp add: kv)
  have "map_of kv' ''images'' = map_of kv ''images''"
    using vals by simp
  then have v: "map_of kv' ''images''
           = Some (JArray [JObject [(''id'', JInt 1), (''file_name'', JString ''a.png'')]])"
    by (simp add: kv)
  have s: "set (seq_of ''annotations'' (document r))
           \<subseteq> {annotation 10 0, annotation 11 1, annotation 12 39, annotation 13 1}"
    using anns by (simp add: seq_of_def three_categories_def)
  show ?thesis
    by (intro exI [of _ r] exI [of _ kv'] conjI r doc k v s)
qed

text \<open>
  C5. Idempotence: the filter applied with the same removal set to the document a
  successful run produced succeeds, changes nothing, and removes nothing, so that the
  statistics of the second run report zero removed categories and zero removed
  annotations.
\<close>

theorem filter_idempotent:
  assumes "filter_document D S = Inr r"
  shows "\<exists>r'. filter_document (document r) S = Inr r'
           \<and> document r' = document r
           \<and> removed_categories r' = [] \<and> removed_annotations r' = []
           \<and> (\<forall>p. \<exists>st. make_stats r' p = Inr st
                  \<and> categories_removed_count st = 0 \<and> annotations_removed_count st = 0)"
proof -
  from filter_document_Inr [OF assms] obtain kv vc va cs as where
    D: "D = JObject kv" and vc: "map_of kv ''categories'' = Some vc"
    and va: "map_of kv ''annotations'' = Some va"
    and tc: "\<forall>c\<in>set cs. \<exists>b. test ''id'' S c = Inr b"
    and ta: "\<forall>a\<in>set as. \<exists>b. test ''category_id'' S a = Inr b"
    and r: "r = result_of kv S cs as"
    by blast
  define cs' where "cs' = filter (\<lambda>c. \<not> refers ''id'' S c) cs"
  define as' where "as' = filter (\<lambda>a. \<not> refers ''category_id'' S a) as"
  define kv' where "kv' = AList.update ''annotations'' (JArray as')
                            (AList.update ''categories'' (JArray cs') kv)"
  have doc: "document r = JObject kv'"
    by (simp add: r result_of_def kv'_def cs'_def as'_def)
  have c': "map_of kv' ''categories'' = Some (JArray cs')"
    and a': "map_of kv' ''annotations'' = Some (JArray as')"
    by (simp_all add: kv'_def update_conv')
  have tc': "\<forall>c\<in>set cs'. \<exists>b. test ''id'' S c = Inr b"
    using tc by (simp add: cs'_def)
  have ta': "\<forall>a\<in>set as'. \<exists>b. test ''category_id'' S a = Inr b"
    using ta by (simp add: as'_def)
  have run: "filter_document (JObject kv') S = Inr (result_of kv' S cs' as')"
    using c' a' tc' ta' by (intro filter_document_succeeds) (auto simp: holds_seq_def)
  have same: "filter (\<lambda>c. \<not> refers ''id'' S c) cs' = cs'"
    "filter (\<lambda>a. \<not> refers ''category_id'' S a) as' = as'"
    by (simp_all add: cs'_def as'_def)
  have none: "filter (refers ''id'' S) cs' = []" "filter (refers ''category_id'' S) as' = []"
    by (simp_all add: cs'_def as'_def)
  have "AList.update ''categories'' (JArray cs') kv' = kv'"
    using c' by (rule update_triv)
  moreover have "AList.update ''annotations'' (JArray as') kv' = kv'"
    using a' by (rule update_triv)
  ultimately have d': "document (result_of kv' S cs' as') = JObject kv'"
    by (simp add: result_of_def same)
  have rem: "removed_categories (result_of kv' S cs' as') = []"
    "removed_annotations (result_of kv' S cs' as') = []"
    by (simp_all add: result_of_def none)
  have st: "\<forall>p. \<exists>st. make_stats (result_of kv' S cs' as') p = Inr st
                  \<and> categories_removed_count st = 0 \<and> annotations_removed_count st = 0"
    by (simp add: make_stats_result [OF c' a'] none)
  from run d' rem st show ?thesis
    unfolding doc by blast
qed

theorem filter_idempotent_witness:
  "\<exists>r r'. filter_document three_categories {0, 39} = Inr r
      \<and> filter_document (document r) {0, 39} = Inr r'
      \<and> document r' = document r
      \<and> (\<exists>st. make_stats r' ''out.json'' = Inr st
             \<and> categories_removed_count st = 0 \<and> annotations_removed_count st = 0)"
proof -
  obtain r where r: "filter_document three_categories {0, 39} = Inr r"
    using well_formed_succeeds [OF three_categories_wf] by blast
  from filter_idempotent [OF r]
  obtain r' where "filter_document (document r) {0, 39} = Inr r'"
    and "document r' = document r"
    and "\<forall>p. \<exists>st. make_stats r' p = Inr st
             \<and> categories_removed_count st = 0 \<and> annotations_removed_count st = 0"
    by blast
  with r show ?thesis by blast
qed

text \<open>
  C6. Identity: when no category of the document has its \<open>id\<close> in the removal set and
  no annotation has its \<open>category_id\<close> there, a successful run leaves both sequences
  as they were and removes nothing; on a document of the data model it returns the
  document itself.
\<close>

theorem filter_identity:
  assumes "filter_document D S = Inr r"
    and "\<forall>c\<in>set (seq_of ''categories'' D). \<not> refers ''id'' S c"
    and "\<forall>a\<in>set (seq_of ''annotations'' D). \<not> refers ''category_id'' S a"
  shows "seq_of ''categories'' (document r) = seq_of ''categories'' D
       \<and> seq_of ''annotations'' (document r) = seq_of ''annotations'' D
       \<and> removed_categories r = [] \<and> removed_annotations r = []
       \<and> (well_formed D \<longrightarrow> document r = D)"
proof -
  from filter_document_Inr [OF assms(1)] obtain kv vc va cs as where
    D: "D = JObject kv" and vc: "map_of kv ''categories'' = Some vc"
    and va: "map_of kv ''annotations'' = Some va"
    and h: "holds_seq vc cs" "holds_seq va as" and r: "r = result_of kv S cs as"
    by blast
  have seqs: "seq_of ''categories'' D = cs" "seq_of ''annotations'' D = as"
    using D vc va h by (simp_all add: seq_of_holds)
  have keep: "filter (\<lambda>c. \<not> refers ''id'' S c) cs = cs"
    "filter (\<lambda>a. \<not> refers ''category_id'' S a) as = as"
    using assms(2,3) seqs by (simp_all add: filter_id_conv)
  have drop: "filter (refers ''id'' S) cs = []" "filter (refers ''category_id'' S) as = []"
    using assms(2,3) seqs by (simp_all add: filter_empty_conv)
  have wf: "document r = D" if "well_formed D"
  proof -
    from that D vc va have "vc = JArray cs" "va = JArray as"
      using h by (auto simp: well_formed_def holds_seq_def split: json.splits)
    then have "AList.update ''categories'' (JArray cs) kv = kv"
      "AList.update ''annotations'' (JArray as) kv = kv"
      using vc va by (simp_all add: update_triv)
    then show ?thesis by (simp add: r D result_of_def keep)
  qed
  show ?thesis
    using wf by (simp add: r seq_of_result seqs keep) (simp add: result_of_def drop)
qed

text \<open>Removing category 5, which occurs nowhere in the example document.\<close>

theorem filter_identity_witness:
  "\<exists>r. filter_document three_categories {5} = Inr r \<and> document r = three_categories
      \<and> removed_categories r = [] \<and> removed_annotations r = []"
proof -
  obtain r where run: "filter_document three_categories {5} = Inr r"
    using well_formed_succeeds [OF three_categories_wf] by blast
  have c: "\<forall>c\<in>set (seq_of ''categories'' three_categories). \<not> refers ''id'' {5} c"
    by (simp add: seq_of_def three_categories_def refers_def category_def)
  have a: "\<forall>a\<in>set (seq_of ''annotations'' three_categories). \<not> refers ''category_id'' {5} a"
    by (simp add: seq_of_def three_categories_def refers_def annotation_def)
  from filter_identity [OF run c a] three_categories_wf run show ?thesis by blast
qed

subsection \<open>Runs of \<^verbatim>\<open>clean_coco_annotations\<close>\<close>

text \<open>
  A run returns statistics exactly when the document loads, the filter succeeds and the
  output can be opened for writing; it then has written the filtered document to the
  place of the output path.
\<close>

lemma clean_Inr:
  assumes "clean_coco_annotations py w src ids out = (Inr st, w')"
  shows "\<exists>D r. load_document py w src = Inr D \<and> filter_document D (set ids) = Inr r
           \<and> write_error w (resolved_output src out) = None
           \<and> make_stats r (resolved_output src out) = Inr st
           \<and> w' = w\<lparr>files := (files w)(locate w (resolved_output src out) :=
                      Regular (json_dump py (document r)
                        (if resolved_output src out \<noteq> src then Some 2 else None)))\<rparr>"
  using assms
  by (auto simp: clean_coco_annotations_def Let_def split: sum.splits option.splits)

lemma clean_run:
  assumes "clean_coco_annotations py w src ids out = (Inr st, w')"
  shows "\<exists>kv vc va cs as. load_document py w src = Inr (JObject kv)
           \<and> map_of kv ''categories'' = Some vc \<and> map_of kv ''annotations'' = Some va
           \<and> holds_seq vc cs \<and> holds_seq va as
           \<and> filter_document (JObject kv) (set ids) = Inr (result_of kv (set ids) cs as)
           \<and> make_stats (result_of kv (set ids) cs as) (resolved_output src out) = Inr st
           \<and> w' = w\<lparr>files := (files w)(locate w (resolved_output src out) :=
                      Regular (json_dump py (document (result_of kv (set ids) cs as))
                        (if resolved_output src out \<noteq> src then Some 2 else None)))\<rparr>"
proof -
  from clean_Inr [OF assms] obtain D r where
    l: "load_document py w src = Inr D" and f: "filter_document D (set ids) = Inr r"
    and m: "make_stats r (resolved_output src out) = Inr st"
    and w: "w' = w\<lparr>files := (files w)(locate w (resolved_output src out) :=
                      Regular (json_dump py (document r)
                        (if resolved_output src out \<noteq> src then Some 2 else None)))\<rparr>"
    by blast
  from filter_document_Inr [OF f] obtain kv vc va cs as where
    "D = JObject kv" "map_of kv ''categories'' = Some vc" "map_of kv ''annotations'' = Some va"
    "holds_seq vc cs" "holds_seq va as" "r = result_of kv (set ids) cs as"
    by blast
  with l f m w show ?thesis by blast
qed

lemma make_stats_succeeds:
  assumes "filter_document D S = Inr r"
  shows "\<exists>st. make_stats r p = Inr st"
proof -
  from filter_document_Inr [OF assms] obtain kv vc va cs as where
    "map_of kv ''categories'' = Some vc" "map_of kv ''annotations'' = Some va"
    "r = result_of kv S cs as"
    by blast
  then show ?thesis by (simp add: make_stats_result)
qed

lemma clean_succeeds:
  assumes "load_document py w src = Inr D" and "filter_document D (set ids) = Inr r"
    and "write_error w (case out of None \<Rightarrow> src | Some p \<Rightarrow> p) = None"
  shows "\<exists>st w'. clean_coco_annotations py w src ids out = (Inr st, w')"
proof -
  from make_stats_succeeds [OF assms(2)] obtain st where
    "make_stats r (resolved_output src out) = Inr st"
    by blast
  with assms show ?thesis
    by (simp add: clean_coco_annotations_def Let_def resolved_output_def)
qed

lemma clean_succeeds_well_formed:
  assumes "load_document py w src = Inr D" and "well_formed D"
    and "write_error w (case out of None \<Rightarrow> src | Some p \<Rightarrow> p) = None"
  shows "\<exists>st w'. clean_coco_annotations py w src ids out = (Inr st, w')"
proof -
  from well_formed_succeeds [OF assms(2)] obtain r where "filter_document D (set ids) = Inr r"
    by blast
  from clean_succeeds [OF assms(1) this assms(3)] show ?thesis .
qed

lemma mset_split: "mset (filter (\<lambda>x. \<not> P x) xs) + mset (filter P xs) = mset xs"
  by (induction xs) auto

lemma example_load:
  "load_document example_py example_world ''in.json'' = Inr three_categories"
  by (simp add: load_document_def open_read_def example_py_def example_world_def)

lemma example_filter:
  "filter_document three_categories {0, 39} =
     Inr \<lparr>document = three_categories_cleaned,
          removed_categories = [category 0 ''a'', category 39 ''c''],
          removed_annotations = [annotation 10 0, annotation 12 39],
          categories_before_count = 3,
          annotations_before_count = 4\<rparr>"
  by (simp add: three_categories_def three_categories_cleaned_def filter_document_def test_def
        category_def annotation_def)

lemma example_run:
  "clean_coco_annotations example_py example_world ''in.json'' [0, 39] (Some ''out.json'') =
     (Inr example_stats,
      example_world\<lparr>files := (files example_world)
                       (''out.json'' := Regular (three_categories_cleaned, Some 2))\<rparr>)"
  by (simp add: clean_coco_annotations_def example_load example_filter resolved_output_def)
     (simp add: example_world_def example_py_def make_stats_def three_categories_cleaned_def
        example_stats_def Let_def numeral_2_eq_2)

lemma example_run_in_place:
  "clean_coco_annotations example_py example_world ''in.json'' [0, 39] None =
     (Inr (example_stats\<lparr>output_file := ''in.json''\<rparr>),
      example_world\<lparr>files := (files example_world)
                       (''in.json'' := Regular (three_categories_cleaned, None))\<rparr>)"
  by (simp add: clean_coco_annotations_def example_load example_filter resolved_output_def)
     (simp add: example_world_def example_py_def make_stats_def three_categories_cleaned_def
        example_stats_def Let_def numeral_2_eq_2)

lemma example_ready:
  "load_document example_py example_world ''in.json'' = Inr three_categories
     \<and> well_formed three_categories
     \<and> write_error example_world (case out of None \<Rightarrow> ''in.json'' | Some p \<Rightarrow> p) = None"
proof (intro conjI)
  show "write_error example_world (case out of None \<Rightarrow> ''in.json'' | Some p \<Rightarrow> p) = None"
    by (simp add: example_world_def)
qed (rule example_load three_categories_wf)+

text \<open>A run that fails leaves the files and the streams as they were.\<close>

lemma clean_failure_writes_nothing:
  assumes "clean_coco_annotations py w src ids out = (Inl e, w')"
  shows "w' = w"
proof (cases "load_document py w src")
  case (Inl e')
  with assms show ?thesis by (simp add: clean_coco_annotations_def)
next
  case (Inr D)
  note D = this
  show ?thesis
  proof (cases "filter_document D (set ids)")
    case (Inl e')
    with assms D show ?thesis by (simp add: clean_coco_annotations_def)
  next
    case (Inr r)
    from make_stats_succeeds [OF Inr]
    have "\<exists>st. make_stats r (resolved_output src out) = Inr st" .
    with assms D Inr show ?thesis
      by (auto simp: clean_coco_annotations_def Let_def split: option.splits)
  qed
qed

text \<open>
  C3. When the loaded document is a mapping without the key \<open>categories\<close> or without
  the key \<open>annotations\<close>, \<^verbatim>\<open>clean_coco_annotations\<close> raises the \<^verbatim>\<open>ValueError\<close> that
  names the missing field (\<open>categories\<close> first), whatever the entries of the document
  are; no statistics and no filtered document are produced, and the files are
  exactly as before, so that no output file is written or changed.
\<close>

theorem missing_field_fails:
  assumes "load_document py w src = Inr (JObject kv)"
    and "''categories'' \<notin> fst ` set kv \<or> ''annotations'' \<notin> fst ` set kv"
  shows "clean_coco_annotations py w src ids out =
           (Inl (ValueError (quoted (if ''categories'' \<notin> fst ` set kv then ''categories''
                                     else ''annotations'')
                             @ '' field not found in annotation file'')), w)
       \<and> filter_document (JObject kv) (set ids) =
           Inl (ValueError (quoted (if ''categories'' \<notin> fst ` set kv then ''categories''
                                     else ''annotations'')
                             @ '' field not found in annotation file''))"
  using assms by (auto simp: clean_coco_annotations_def filter_document_def)

text \<open>
  The document of \<open>bad.json\<close> has no \<open>annotations\<close>, and a category on which the
  filtering itself would raise a \<^verbatim>\<open>TypeError\<close>: the missing field is reported and
  \<open>out.json\<close> is not created.
\<close>

theorem missing_field_fails_witness:
  "clean_coco_annotations example_py example_world ''bad.json'' [0, 39] (Some ''out.json'') =
     (Inl (ValueError (quoted ''annotations'' @ '' field not found in annotation file'')),
      example_world)
   \<and> files example_world (locate example_world ''out.json'') = Missing"
proof -
  have l: "load_document example_py example_world ''bad.json''
             = Inr (JObject [(''categories'', JArray [JInt 5])])"
    by (simp add: load_document_def open_read_def example_py_def example_world_def
          no_annotations_def)
  have k: "''categories'' \<notin> fst ` set [(''categories'', JArray [JInt 5])]
         \<or> ''annotations'' \<notin> fst ` set [(''categories'', JArray [JInt 5])]"
    by simp
  from missing_field_fails [OF l k, of "[0, 39]" "Some ''out.json''"]
  show ?thesis by (simp add: example_world_def)
qed

text \<open>
  C7. \<^verbatim>\<open>clean_coco_annotations\<close> returns statistics whenever the document it loads is
  one of the data model and the output can be opened for writing. The statistics it
  returns hold: the removed categories, as full records, and their number; the number
  of removed annotations; the numbers of categories and of annotations of the input
  document and of the document written to the output file; and the output path, which
  is the given one, or the input path when none was given.
\<close>

theorem statistics_report:
  "(load_document py w src = Inr D \<and> well_formed D
      \<and> write_error w (case out of None \<Rightarrow> src | Some p \<Rightarrow> p) = None
     \<longrightarrow> (\<exists>st w'. clean_coco_annotations py w src ids out = (Inr st, w')))
   \<and> (\<forall>st w'. clean_coco_annotations py w src ids out = (Inr st, w') \<longrightarrow>
        (\<exists>D r ind. load_document py w src = Inr D \<and> filter_document D (set ids) = Inr r
           \<and> files w' (locate w (output_file st)) = Regular (json_dump py (document r) ind)
           \<and> categories_removed st = filter (refers ''id'' (set ids)) (seq_of ''categories'' D)
           \<and> categories_removed_count st = length (categories_removed st)
           \<and> annotations_removed_count st
               = length (filter (refers ''category_id'' (set ids)) (seq_of ''annotations'' D))
           \<and> original_categories_count st = length (seq_of ''categories'' D)
           \<and> original_annotations_count st = length (seq_of ''annotations'' D)
           \<and> final_categories_count st = length (seq_of ''categories'' (document r))
           \<and> final_annotations_count st = length (seq_of ''annotations'' (document r))
           \<and> output_file st = (case out of None \<Rightarrow> src | Some p \<Rightarrow> p)))"
proof (intro conjI allI impI)
  assume "load_document py w src = Inr D \<and> well_formed D
      \<and> write_error w (case out of None \<Rightarrow> src | Some p \<Rightarrow> p) = None"
  then show "\<exists>st w'. clean_coco_annotations py w src ids out = (Inr st, w')"
    by (intro clean_succeeds_well_formed [of py w src D]) simp_all
next
  fix st w'
  assume run: "clean_coco_annotations py w src ids out = (Inr st, w')"
  from clean_run [OF run] obtain kv vc va cs as where
    l: "load_document py w src = Inr (JObject kv)"
    and vc: "map_of kv ''categories'' = Some vc" and va: "map_of kv ''annotations'' = Some va"
    and h: "holds_seq vc cs" "holds_seq va as"
    and f: "filter_document (JObject kv) (set ids) = Inr (result_of kv (set ids) cs as)"
    and m: "make_stats (result_of kv (set ids) cs as) (resolved_output src out) = Inr st"
    and w: "w' = w\<lparr>files := (files w)(locate w (resolved_output src out) :=
                      Regular (json_dump py (document (result_of kv (set ids) cs as))
                        (if resolved_output src out \<noteq> src then Some 2 else None)))\<rparr>"
    by blast
  have seqs: "seq_of ''categories'' (JObject kv) = cs" "seq_of ''annotations'' (JObject kv) = as"
    using vc va h by (simp_all add: seq_of_holds)
  from m have st: "st = \<lparr>categories_removed_count = length (filter (refers ''id'' (set ids)) cs),
          categories_removed = filter (refers ''id'' (set ids)) cs,
          annotations_removed_count = length (filter (refers ''category_id'' (set ids)) as),
          original_categories_count = length cs,
          original_annotations_count = length as,
          final_categories_count = length (filter (\<lambda>c. \<not> refers ''id'' (set ids) c) cs),
          final_annotations_count = length (filter (\<lambda>a. \<not> refers ''category_id'' (set ids) a) as),
          output_file = resolved_output src out\<rparr>"
    by (simp add: make_stats_result [OF vc va])
  have written: "files w' (locate w (output_file st))
      = Regular (json_dump py (document (result_of kv (set ids) cs as))
                        (if resolved_output src out \<noteq> src then Some 2 else None))"
    by (simp add: w st)
  have rest: "categories_removed st = filter (refers ''id'' (set ids)) (seq_of ''categories'' (JObject kv))
           \<and> categories_removed_count st = length (categories_removed st)
           \<and> annotations_removed_count st
               = length (filter (refers ''category_id'' (set ids)) (seq_of ''annotations'' (JObject kv)))
           \<and> original_categories_count st = length (seq_of ''categories'' (JObject kv))
           \<and> original_annotations_count st = length (seq_of ''annotations'' (JObject kv))
           \<and> final_categories_count st = length (seq_of ''categories'' (document (result_of kv (set ids) cs as)))
           \<and> final_annotations_count st = length (seq_of ''annotations'' (document (result_of kv (set ids) cs as)))
           \<and> output_file st = (case out of None \<Rightarrow> src | Some p \<Rightarrow> p)"
    by (simp add: st seqs seq_of_result resolved_output_def)
  from l f written rest
  show "\<exists>D r ind. load_document py w src = Inr D \<and> filter_document D (set ids) = Inr r
           \<and> files w' (locate w (output_file st)) = Regular (json_dump py (document r) ind)
           \<and> categories_removed st = filter (refers ''id'' (set ids)) (seq_of ''categories'' D)
           \<and> categories_removed_count st = length (categories_removed st)
           \<and> annotations_removed_count st
               = length (filter (refers ''category_id'' (set ids)) (seq_of ''annotations'' D))
           \<and> original_categories_count st = length (seq_of ''categories'' D)
           \<and> original_annotations_count st = length (seq_of ''annotations'' D)
           \<and> final_categories_count st = length (seq_of ''categories'' (document r))
           \<and> final_annotations_count st = length (seq_of ''annotations'' (document r))
           \<and> output_file st = (case out of None \<Rightarrow> src | Some p \<Rightarrow> p)"
    by blast
qed

text \<open>
  The run on the example returns statistics, with 2 of 3 categories and 2 of 4
  annotations removed.
\<close>

theorem statistics_report_witness:
  "\<exists>st w'. clean_coco_annotations example_py example_world ''in.json'' [0, 39] (Some ''out.json'')
             = (Inr st, w')
      \<and> categories_removed st = [category 0 ''a'', category 39 ''c'']
      \<and> categories_removed_count st = 2
      \<and> annotations_removed_count st = 2
      \<and> original_categories_count st = 3
      \<and> original_annotations_count st = 4
      \<and> final_categories_count st = 1
      \<and> final_annotations_count st = 2
      \<and> output_file st = ''out.json''"
proof -
  note inst = statistics_report [where py = example_py and w = example_world
      and src = "''in.json''" and D = three_categories and out = "Some ''out.json''"
      and ids = "[0, 39]"]
  from inst example_ready [of "Some ''out.json''"] obtain st w' where
    run: "clean_coco_annotations example_py example_world ''in.json'' [0, 39] (Some ''out.json'')
            = (Inr st, w')"
    by blast
  with inst obtain D r where
    l: "load_document example_py example_world ''in.json'' = Inr D"
    and f: "filter_document D (set [0, 39]) = Inr r"
    and facts: "categories_removed st
                  = filter (refers ''id'' (set [0, 39])) (seq_of ''categories'' D)"
      "categories_removed_count st = length (categories_removed st)"
      "annotations_removed_count st
         = length (filter (refers ''category_id'' (set [0, 39])) (seq_of ''annotations'' D))"
      "original_categories_count st = length (seq_of ''categories'' D)"
      "original_annotations_count st = length (seq_of ''annotations'' D)"
      "final_categories_count st = length (seq_of ''categories'' (document r))"
      "final_annotations_count st = length (seq_of ''annotations'' (document r))"
      "output_file st = (case Some ''out.json'' of None \<Rightarrow> ''in.json'' | Some p \<Rightarrow> p)"
    by blast
  from l have D: "D = three_categories" by (simp add: example_load)
  from f have r: "document r = three_categories_cleaned"
    by (auto simp: D example_filter)
  have 1: "categories_removed st = [category 0 ''a'', category 39 ''c'']"
    using facts(1) by (simp add: D seq_of_def three_categories_def refers_def category_def)
  have 2: "categories_removed_count st = 2"
    using facts(2) by (simp add: 1)
  have 3: "annotations_removed_count st = 2"
    using facts(3) by (simp add: D seq_of_def three_categories_def refers_def annotation_def)
  have 4: "original_categories_count st = 3" "original_annotations_count st = 4"
    using facts(4,5) by (simp_all add: D seq_of_def three_categories_def)
  have 5: "final_categories_count st = 1" "final_annotations_count st = 2"
    using facts(6,7) by (simp_all add: r seq_of_def three_categories_cleaned_def)
  have 6: "output_file st = ''out.json''"
    using facts(8) by simp
  show ?thesis
    by (intro exI [of _ st] exI [of _ w'] conjI run 1 2 3 4 5 6)
qed

text \<open>
  C8, as amended. A run that returns statistics (and every run on a document of the data
  model with a writable output does) has written the filtered document to the place of
  the resolved output path, with \<^verbatim>\<open>indent=2\<close> exactly when that path differs as a string
  from the input path, which is the comparison of line 69, and without indentation
  (\<^verbatim>\<open>indent=None\<close>) when no output path, or the very string of the input path, was given.
\<close>

theorem output_formatting:
  "(load_document py w src = Inr D \<and> well_formed D
      \<and> write_error w (case out of None \<Rightarrow> src | Some p \<Rightarrow> p) = None
     \<longrightarrow> (\<exists>st w'. clean_coco_annotations py w src ids out = (Inr st, w')))
   \<and> (\<forall>st w'. clean_coco_annotations py w src ids out = (Inr st, w') \<longrightarrow>
        (\<exists>D r. load_document py w src = Inr D \<and> filter_document D (set ids) = Inr r
           \<and> output_file st = (case out of None \<Rightarrow> src | Some p \<Rightarrow> p)
           \<and> files w' (locate w (output_file st))
               = Regular (json_dump py (document r)
                            (if output_file st \<noteq> src then Some 2 else None))
           \<and> (out = None \<or> out = Some src \<longrightarrow>
                 files w' (locate w src) = Regular (json_dump py (document r) None))
           \<and> (\<forall>p. out = Some p \<and> p \<noteq> src \<longrightarrow>
                 files w' (locate w p) = Regular (json_dump py (document r) (Some 2)))))"
proof (intro conjI allI impI)
  assume "load_document py w src = Inr D \<and> well_formed D
      \<and> write_error w (case out of None \<Rightarrow> src | Some p \<Rightarrow> p) = None"
  then show "\<exists>st w'. clean_coco_annotations py w src ids out = (Inr st, w')"
    by (intro clean_succeeds_well_formed [of py w src D]) simp_all
next
  fix st w'
  assume run: "clean_coco_annotations py w src ids out = (Inr st, w')"
  from clean_run [OF run] obtain kv vc va cs as where
    l: "load_document py w src = Inr (JObject kv)"
    and vc: "map_of kv ''categories'' = Some vc" and va: "map_of kv ''annotations'' = Some va"
    and f: "filter_document (JObject kv) (set ids) = Inr (result_of kv (set ids) cs as)"
    and m: "make_stats (result_of kv (set ids) cs as) (resolved_output src out) = Inr st"
    and w: "w' = w\<lparr>files := (files w)(locate w (resolved_output src out) :=
                      Regular (json_dump py (document (result_of kv (set ids) cs as))
                        (if resolved_output src out \<noteq> src then Some 2 else None)))\<rparr>"
    by blast
  from m have o: "output_file st = resolved_output src out"
    by (auto simp: make_stats_result [OF vc va])
  have rest: "output_file st = (case out of None \<Rightarrow> src | Some p \<Rightarrow> p)
           \<and> files w' (locate w (output_file st))
               = Regular (json_dump py (document (result_of kv (set ids) cs as))
                                  (if output_file st \<noteq> src then Some 2 else None))
           \<and> (out = None \<or> out = Some src \<longrightarrow>
                 files w' (locate w src)
                   = Regular (json_dump py (document (result_of kv (set ids) cs as)) None))
           \<and> (\<forall>p. out = Some p \<and> p \<noteq> src \<longrightarrow>
                 files w' (locate w p)
                   = Regular (json_dump py (document (result_of kv (set ids) cs as)) (Some 2)))"
    by (auto simp: o w resolved_output_def)
  from l f rest
  show "\<exists>D r. load_document py w src = Inr D \<and> filter_document D (set ids) = Inr r
           \<and> output_file st = (case out of None \<Rightarrow> src | Some p \<Rightarrow> p)
           \<and> files w' (locate w (output_file st))
               = Regular (json_dump py (document r)
                            (if output_file st \<noteq> src then Some 2 else None))
           \<and> (out = None \<or> out = Some src \<longrightarrow>
                 files w' (locate w src) = Regular (json_dump py (document r) None))
           \<and> (\<forall>p. out = Some p \<and> p \<noteq> src \<longrightarrow>
                 files w' (locate w p) = Regular (json_dump py (document r) (Some 2)))"
    by blast
qed

text \<open>
  The example written to \<open>out.json\<close>, indented, and written over \<open>in.json\<close>, not
  indented.
\<close>

theorem output_formatting_witness:
  "(\<exists>st w'. clean_coco_annotations example_py example_world ''in.json'' [0, 39]
               (Some ''out.json'') = (Inr st, w')
       \<and> files w' (locate example_world ''out.json'')
           = Regular (three_categories_cleaned, Some 2))
   \<and> (\<exists>st w'. clean_coco_annotations example_py example_world ''in.json'' [0, 39] None
               = (Inr st, w')
       \<and> files w' (locate example_world ''in.json'') = Regular (three_categories_cleaned, None))"
proof -
  note inst1 = output_formatting [where py = example_py and w = example_world
      and src = "''in.json''" and D = three_categories and out = "Some ''out.json''"
      and ids = "[0, 39]"]
  note inst2 = output_formatting [where py = example_py and w = example_world
      and src = "''in.json''" and D = three_categories and out = None and ids = "[0, 39]"]
  from inst1 example_ready [of "Some ''out.json''"] obtain st w' where
    run: "clean_coco_annotations example_py example_world ''in.json'' [0, 39]
               (Some ''out.json'') = (Inr st, w')"
    by blast
  with inst1 obtain D r where
    l: "load_document example_py example_world ''in.json'' = Inr D"
    and f: "filter_document D (set [0, 39]) = Inr r"
    and c: "\<forall>p. Some ''out.json'' = Some p \<and> p \<noteq> ''in.json'' \<longrightarrow>
              files w' (locate example_world p)
                = Regular (json_dump example_py (document r) (Some 2))"
    by blast
  from l have D: "D = three_categories" by (simp add: example_load)
  from f have r: "document r = three_categories_cleaned"
    by (auto simp: D example_filter)
  from c have 1: "files w' (locate example_world ''out.json'')
           = Regular (three_categories_cleaned, Some 2)"
    by (simp add: r example_py_def)
  from inst2 example_ready [of None] obtain st2 w2 where
    run2: "clean_coco_annotations example_py example_world ''in.json'' [0, 39] None
               = (Inr st2, w2)"
    by blast
  with inst2 obtain D2 r2 where
    l2: "load_document example_py example_world ''in.json'' = Inr D2"
    and f2: "filter_document D2 (set [0, 39]) = Inr r2"
    and c2: "None = None \<or> None = Some ''in.json'' \<longrightarrow>
              files w2 (locate example_world ''in.json'')
                = Regular (json_dump example_py (document r2) None)"
    by blast
  from l2 have D2: "D2 = three_categories" by (simp add: example_load)
  from f2 have r2: "document r2 = three_categories_cleaned"
    by (auto simp: D2 example_filter)
  from c2 have 2: "files w2 (locate example_world ''in.json'')
           = Regular (three_categories_cleaned, None)"
    by (simp add: r2 example_py_def)
  show ?thesis
    by (intro conjI exI [of _ st] exI [of _ w'] exI [of _ st2] exI [of _ w2] run 1 run2 2)
qed

text \<open>
  The claim as the specification words it, that a source file overwritten in place is
  written without indentation, fails when the output path is another spelling of the
  input path: with the output \<^verbatim>\<open>./in.json\<close> the two strings differ, the run succeeds,
  and the file of \<^verbatim>\<open>in.json\<close> is overwritten with \<^verbatim>\<open>indent=2\<close>.
\<close>

theorem output_formatting_counterexample:
  "fst (clean_coco_annotations example_py example_world ''in.json'' [0, 39] (Some ''./in.json''))
     = Inr (example_stats\<lparr>output_file := ''./in.json''\<rparr>)
   \<and> files example_world (locate example_world ''in.json'') = Regular (three_categories, None)
   \<and> files (snd (clean_coco_annotations example_py example_world ''in.json'' [0, 39]
                    (Some ''./in.json'')))
        (locate example_world ''in.json'')
       = Regular (three_categories_cleaned, Some 2)"
  by (simp add: clean_coco_annotations_def example_load example_filter resolved_output_def)
     (simp add: example_world_def example_py_def make_stats_def three_categories_cleaned_def
        example_stats_def Let_def numeral_2_eq_2)

text \<open>
  C10. \<^verbatim>\<open>clean_coco_annotations\<close> returns statistics whenever the document it loads is
  one of the data model and the output can be opened for writing. In the statistics it
  returns, the final count is the original count minus the removed count, for the
  categories and for the annotations; the counts are the lengths of the input
  sequence, of the kept sequence and of the removed entries, and the entries of the
  input are, as multisets, the kept entries together with the removed ones, so every
  entry is counted once, as kept or as removed.
\<close>

theorem statistics_arithmetic:
  "(load_document py w src = Inr D \<and> well_formed D
      \<and> write_error w (case out of None \<Rightarrow> src | Some p \<Rightarrow> p) = None
     \<longrightarrow> (\<exists>st w'. clean_coco_annotations py w src ids out = (Inr st, w')))
   \<and> (\<forall>st w'. clean_coco_annotations py w src ids out = (Inr st, w') \<longrightarrow>
        final_categories_count st = original_categories_count st - categories_removed_count st
      \<and> final_annotations_count st = original_annotations_count st - annotations_removed_count st
      \<and> original_categories_count st = final_categories_count st + categories_removed_count st
      \<and> original_annotations_count st = final_annotations_count st + annotations_removed_count st
      \<and> (\<exists>D r. load_document py w src = Inr D \<and> filter_document D (set ids) = Inr r
             \<and> mset (seq_of ''categories'' D)
                 = mset (seq_of ''categories'' (document r)) + mset (removed_categories r)
             \<and> mset (seq_of ''annotations'' D)
                 = mset (seq_of ''annotations'' (document r)) + mset (removed_annotations r)
             \<and> original_categories_count st = length (seq_of ''categories'' D)
             \<and> final_categories_count st = length (seq_of ''categories'' (document r))
             \<and> categories_removed_count st = length (removed_categories r)
             \<and> original_annotations_count st = length (seq_of ''annotations'' D)
             \<and> final_annotations_count st = length (seq_of ''annotations'' (document r))
             \<and> annotations_removed_count st = length (removed_annotations r)))"
proof (intro conjI allI impI)
  assume "load_document py w src = Inr D \<and> well_formed D
      \<and> write_error w (case out of None \<Rightarrow> src | Some p \<Rightarrow> p) = None"
  then show "\<exists>st w'. clean_coco_annotations py w src ids out = (Inr st, w')"
    by (intro clean_succeeds_well_formed [of py w src D]) simp_all
next
  fix st w'
  assume run: "clean_coco_annotations py w src ids out = (Inr st, w')"
  from clean_run [OF run] obtain kv vc va cs as where
    l: "load_document py w src = Inr (JObject kv)"
    and vc: "map_of kv ''categories'' = Some vc" and va: "map_of kv ''annotations'' = Some va"
    and h: "holds_seq vc cs" "holds_seq va as"
    and f: "filter_document (JObject kv) (set ids) = Inr (result_of kv (set ids) cs as)"
    and m: "make_stats (result_of kv (set ids) cs as) (resolved_output src out) = Inr st"
    by blast
  have seqs: "seq_of ''categories'' (JObject kv) = cs" "seq_of ''annotations'' (JObject kv) = as"
    using vc va h by (simp_all add: seq_of_holds)
  from m have st: "st = \<lparr>categories_removed_count = length (filter (refers ''id'' (set ids)) cs),
          categories_removed = filter (refers ''id'' (set ids)) cs,
          annotations_removed_count = length (filter (refers ''category_id'' (set ids)) as),
          original_categories_count = length cs,
          original_annotations_count = length as,
          final_categories_count = length (filter (\<lambda>c. \<not> refers ''id'' (set ids) c) cs),
          final_annotations_count = length (filter (\<lambda>a. \<not> refers ''category_id'' (set ids) a) as),
          output_file = resolved_output src out\<rparr>"
    by (simp add: make_stats_result [OF vc va])
  have part: "length (filter (\<lambda>x. \<not> P x) xs) + length (filter P xs) = length xs"
    for P and xs :: "json list"
    using sum_length_filter_compl [of P xs] by simp
  show "final_categories_count st = original_categories_count st - categories_removed_count st"
    using part [of "refers ''id'' (set ids)" cs] by (simp add: st)
  show "final_annotations_count st = original_annotations_count st - annotations_removed_count st"
    using part [of "refers ''category_id'' (set ids)" as] by (simp add: st)
  show "original_categories_count st = final_categories_count st + categories_removed_count st"
    using part [of "refers ''id'' (set ids)" cs] by (simp add: st)
  show "original_annotations_count st = final_annotations_count st + annotations_removed_count st"
    using part [of "refers ''category_id'' (set ids)" as] by (simp add: st)
  have removed: "removed_categories (result_of kv (set ids) cs as) = filter (refers ''id'' (set ids)) cs"
    "removed_annotations (result_of kv (set ids) cs as) = filter (refers ''category_id'' (set ids)) as"
    by (simp_all add: result_of_def)
  have both: "mset (seq_of ''categories'' (JObject kv))
                 = mset (seq_of ''categories'' (document (result_of kv (set ids) cs as)))
                   + mset (removed_categories (result_of kv (set ids) cs as))
             \<and> mset (seq_of ''annotations'' (JObject kv))
                 = mset (seq_of ''annotations'' (document (result_of kv (set ids) cs as)))
                   + mset (removed_annotations (result_of kv (set ids) cs as))
             \<and> original_categories_count st = length (seq_of ''categories'' (JObject kv))
             \<and> final_categories_count st = length (seq_of ''categories'' (document (result_of kv (set ids) cs as)))
             \<and> categories_removed_count st = length (removed_categories (result_of kv (set ids) cs as))
             \<and> original_annotations_count st = length (seq_of ''annotations'' (JObject kv))
             \<and> final_annotations_count st = length (seq_of ''annotations'' (document (result_of kv (set ids) cs as)))
             \<and> annotations_removed_count st = length (removed_annotations (result_of kv (set ids) cs as))"
    by (simp add: seqs seq_of_result st removed mset_split [symmetric])
  from l f both show "\<exists>D r. load_document py w src = Inr D \<and> filter_document D (set ids) = Inr r
             \<and> mset (seq_of ''categories'' D)
                 = mset (seq_of ''categories'' (document r)) + mset (removed_categories r)
             \<and> mset (seq_of ''annotations'' D)
                 = mset (seq_of ''annotations'' (document r)) + mset (removed_annotations r)
             \<and> original_categories_count st = length (seq_of ''categories'' D)
             \<and> final_categories_count st = length (seq_of ''categories'' (document r))
             \<and> categories_removed_count st = length (removed_categories r)
             \<and> original_annotations_count st = length (seq_of ''annotations'' D)
             \<and> final_annotations_count st = length (seq_of ''annotations'' (document r))
             \<and> annotations_removed_count st = length (removed_annotations r)"
    by blast
qed

text \<open>The run on the example, in place: 3 = 1 + 2 categories, 4 = 2 + 2 annotations.\<close>

theorem statistics_arithmetic_witness:
  "\<exists>st w'. clean_coco_annotations example_py example_world ''in.json'' [0, 39] None = (Inr st, w')
      \<and> original_categories_count st = 3 \<and> categories_removed_count st = 2
      \<and> final_categories_count st = 1
      \<and> original_annotations_count st = 4 \<and> annotations_removed_count st = 2
      \<and> final_annotations_count st = 2
      \<and> final_categories_count st = original_categories_count st - categories_removed_count st
      \<and> final_annotations_count st
          = original_annotations_count st - annotations_removed_count st"
proof -
  note inst = statistics_arithmetic [where py = example_py and w = example_world
      and src = "''in.json''" and D = three_categories and out = None and ids = "[0, 39]"]
  from inst example_ready [of None] obtain st w' where
    run: "clean_coco_annotations example_py example_world ''in.json'' [0, 39] None = (Inr st, w')"
    by blast
  with inst have arith:
    "final_categories_count st = original_categories_count st - categories_removed_count st"
    "final_annotations_count st = original_annotations_count st - annotations_removed_count st"
    "original_categories_count st = final_categories_count st + categories_removed_count st"
    "original_annotations_count st = final_annotations_count st + annotations_removed_count st"
    by blast+
  from inst run obtain D r where
    l: "load_document example_py example_world ''in.json'' = Inr D"
    and f: "filter_document D (set [0, 39]) = Inr r"
    and counts: "final_categories_count st = length (seq_of ''categories'' (document r))"
      "categories_removed_count st = length (removed_categories r)"
      "final_annotations_count st = length (seq_of ''annotations'' (document r))"
      "annotations_removed_count st = length (removed_annotations r)"
    by blast
  from l have D: "D = three_categories" by (simp add: example_load)
  from f have r: "document r = three_categories_cleaned"
    "removed_categories r = [category 0 ''a'', category 39 ''c'']"
    "removed_annotations r = [annotation 10 0, annotation 12 39]"
    by (auto simp: D example_filter)
  have 1: "final_categories_count st = 1" "final_annotations_count st = 2"
    using counts(1,3) by (simp_all add: r seq_of_def three_categories_cleaned_def)
  have 2: "categories_removed_count st = 2" "annotations_removed_count st = 2"
    using counts(2,4) by (simp_all add: r)
  have 3: "original_categories_count st = 3" "original_annotations_count st = 4"
    using arith(3,4) by (simp_all add: 1 2)
  show ?thesis
    by (intro exI [of _ st] exI [of _ w'] conjI run 1 2 3 arith(1,2))
qed

subsection \<open>The command line\<close>

text \<open>
  The identifiers are rejected exactly when some token is rejected. A string always
  splits into at least one token, the empty string into the empty token, so the parsed
  list is never empty. What \<^verbatim>\<open>parse_args\<close> does never depends on \<^verbatim>\<open>json.load\<close>.
\<close>

lemma parse_ids_None_iff: "parse_ids f ts = None \<longleftrightarrow> (\<exists>t\<in>set ts. f t = None)"
  by (induction ts) (auto split: option.splits)

lemma split_comma_nonempty: "split_comma s \<noteq> []"
  by (induction s) auto

lemma parse_ids_nonempty: "parse_ids f (split_comma s) \<noteq> Some []"
proof (cases "split_comma s")
  case Nil
  then show ?thesis by (simp add: split_comma_nonempty)
next
  case (Cons t ts)
  then show ?thesis by (simp split: option.splits)
qed

lemma split_comma_empty: "split_comma '''' = ['''']"
  by simp

lemma parse_args_json_load: "parse_args (py\<lparr>json_load := load\<rparr>) argv = parse_args py argv"
  by (simp add: parse_args_def Let_def cong: list.case_cong)

lemma example_parse:
  "parse_args example_py bad_ids_argv
     = Namespace \<lparr>annotation_file = ''in.json'', category_ids = ''x,2'',
                  output_file_opt = Some ''out.json'', verbose = False\<rparr>"
  "parse_args example_py empty_ids_argv
     = Namespace \<lparr>annotation_file = ''in.json'', category_ids = '''',
                  output_file_opt = None, verbose = False\<rparr>"
  "parse_args example_py missing_file_argv
     = Namespace \<lparr>annotation_file = ''missing.json'', category_ids = ''5'',
                  output_file_opt = None, verbose = True\<rparr>"
  "parse_args example_py verbose_argv
     = Namespace \<lparr>annotation_file = ''in.json'', category_ids = ''0,39'',
                  output_file_opt = Some ''out.json'', verbose = True\<rparr>"
  by (simp_all add: parse_args_def bad_ids_argv_def empty_ids_argv_def missing_file_argv_def
        verbose_argv_def plain_def verbose_flag_def unknown_option_def)

text \<open>
  C9, as amended. For every command line that \<^verbatim>\<open>parse_args\<close> accepts: when a token of
  the category-id argument is not an integer, or the list of identifiers is empty, the
  process exits with code 1 and the only effect is one more message on standard error,
  which has no line break, so that standard output and the files are as before; and
  when the input path does not exist, the process exits with code 1, again with one
  more message on standard error and nothing else changed, and the outcome does not
  depend on \<^verbatim>\<open>json.load\<close>: the file is never parsed.
\<close>

theorem command_line_errors:
  "(parse_args py argv = Namespace a
      \<and> ((\<exists>tok\<in>set (split_comma (category_ids a)). int_of_stripped py tok = None)
           \<or> parse_ids (int_of_stripped py) (split_comma (category_ids a)) = Some [])
     \<longrightarrow> (\<exists>msg. main py argv w = (1, w\<lparr>stderr := stderr w @ [msg]\<rparr>) \<and> CHR 0x0A \<notin> set msg))
   \<and> (parse_args py argv = Namespace a \<and> \<not> path_exists w (annotation_file a)
     \<longrightarrow> (\<exists>msg. main py argv w = (1, w\<lparr>stderr := stderr w @ [msg]\<rparr>))
        \<and> (\<forall>load. main (py\<lparr>json_load := load\<rparr>) argv w = main py argv w))"
proof (intro conjI impI)
  assume "parse_args py argv = Namespace a
      \<and> ((\<exists>tok\<in>set (split_comma (category_ids a)). int_of_stripped py tok = None)
           \<or> parse_ids (int_of_stripped py) (split_comma (category_ids a)) = Some [])"
  then have p: "parse_args py argv = Namespace a"
    and bad: "parse_ids (int_of_stripped py) (split_comma (category_ids a)) = None
       \<or> parse_ids (int_of_stripped py) (split_comma (category_ids a)) = Some []"
    by (auto simp: parse_ids_None_iff)
  from bad
  show "\<exists>msg. main py argv w = (1, w\<lparr>stderr := stderr w @ [msg]\<rparr>) \<and> CHR 0x0A \<notin> set msg"
  proof (elim disjE)
    assume "parse_ids (int_of_stripped py) (split_comma (category_ids a)) = None"
    then have "main py argv w
        = (1, w\<lparr>stderr := stderr w @ [''Error: Category IDs must be integers separated by commas'']\<rparr>)"
      by (simp add: main_def p main_parsed_def print_err_def)
    moreover have "CHR 0x0A \<notin> set ''Error: Category IDs must be integers separated by commas''"
      by simp
    ultimately show ?thesis by blast
  next
    assume "parse_ids (int_of_stripped py) (split_comma (category_ids a)) = Some []"
    then have "main py argv w
        = (1, w\<lparr>stderr := stderr w @ [''Error: At least one category ID must be specified'']\<rparr>)"
      by (simp add: main_def p main_parsed_def print_err_def)
    moreover have "CHR 0x0A \<notin> set ''Error: At least one category ID must be specified''"
      by simp
    ultimately show ?thesis by blast
  qed
next
  assume "parse_args py argv = Namespace a \<and> \<not> path_exists w (annotation_file a)"
  then have p: "parse_args py argv = Namespace a"
    and missing: "\<not> path_exists w (annotation_file a)"
    by simp_all
  show "\<exists>msg. main py argv w = (1, w\<lparr>stderr := stderr w @ [msg]\<rparr>)"
    using missing
    by (auto simp: main_def p main_parsed_def print_err_def split: option.splits)
  show "\<forall>load. main (py\<lparr>json_load := load\<rparr>) argv w = main py argv w"
    using missing
    by (simp add: main_def parse_args_json_load p main_parsed_def split: option.splits)
qed

text \<open>
  The argument \<open>x,2\<close>, the empty argument, and the input \<open>missing.json\<close>, for which a
  parser that always fails makes no difference.
\<close>

theorem command_line_errors_witness:
  "(\<exists>msg. main example_py bad_ids_argv example_world
           = (1, example_world\<lparr>stderr := stderr example_world @ [msg]\<rparr>) \<and> CHR 0x0A \<notin> set msg)
   \<and> (\<exists>msg. main example_py empty_ids_argv example_world
           = (1, example_world\<lparr>stderr := stderr example_world @ [msg]\<rparr>) \<and> CHR 0x0A \<notin> set msg)
   \<and> (\<exists>msg. main example_py missing_file_argv example_world
           = (1, example_world\<lparr>stderr := stderr example_world @ [msg]\<rparr>))
   \<and> main (example_py\<lparr>json_load := (\<lambda>c. Inl (JSONDecodeError ''Expecting value''))\<rparr>)
        missing_file_argv example_world
      = main example_py missing_file_argv example_world"
proof -
  have 1: "parse_args example_py bad_ids_argv
     = Namespace \<lparr>annotation_file = ''in.json'', category_ids = ''x,2'',
                  output_file_opt = Some ''out.json'', verbose = False\<rparr>
     \<and> ((\<exists>tok\<in>set (split_comma (category_ids \<lparr>annotation_file = ''in.json'',
                  category_ids = ''x,2'', output_file_opt = Some ''out.json'',
                  verbose = False\<rparr>)). int_of_stripped example_py tok = None)
         \<or> parse_ids (int_of_stripped example_py) (split_comma (category_ids
              \<lparr>annotation_file = ''in.json'', category_ids = ''x,2'',
               output_file_opt = Some ''out.json'', verbose = False\<rparr>)) = Some [])"
    by (simp add: example_parse) (simp add: example_py_def)
  have 2: "parse_args example_py empty_ids_argv
     = Namespace \<lparr>annotation_file = ''in.json'', category_ids = '''',
                  output_file_opt = None, verbose = False\<rparr>
     \<and> ((\<exists>tok\<in>set (split_comma (category_ids \<lparr>annotation_file = ''in.json'',
                  category_ids = '''', output_file_opt = None,
                  verbose = False\<rparr>)). int_of_stripped example_py tok = None)
         \<or> parse_ids (int_of_stripped example_py) (split_comma (category_ids
              \<lparr>annotation_file = ''in.json'', category_ids = '''',
               output_file_opt = None, verbose = False\<rparr>)) = Some [])"
    by (simp add: example_parse) (simp add: example_py_def)
  have 3: "parse_args example_py missing_file_argv
     = Namespace \<lparr>annotation_file = ''missing.json'', category_ids = ''5'',
                  output_file_opt = None, verbose = True\<rparr>
     \<and> \<not> path_exists example_world (annotation_file \<lparr>annotation_file = ''missing.json'',
           category_ids = ''5'', output_file_opt = None, verbose = True\<rparr>)"
    by (simp add: example_parse) (simp add: path_exists_def example_world_def)
  from command_line_errors [where py = example_py and argv = bad_ids_argv
      and w = example_world] 1
  have a: "\<exists>msg. main example_py bad_ids_argv example_world
           = (1, example_world\<lparr>stderr := stderr example_world @ [msg]\<rparr>) \<and> CHR 0x0A \<notin> set msg"
    by blast
  from command_line_errors [where py = example_py and argv = empty_ids_argv
      and w = example_world] 2
  have b: "\<exists>msg. main example_py empty_ids_argv example_world
           = (1, example_world\<lparr>stderr := stderr example_world @ [msg]\<rparr>) \<and> CHR 0x0A \<notin> set msg"
    by blast
  from command_line_errors [where py = example_py and argv = missing_file_argv
      and w = example_world] 3
  have c: "(\<exists>msg. main example_py missing_file_argv example_world
           = (1, example_world\<lparr>stderr := stderr example_world @ [msg]\<rparr>))
        \<and> (\<forall>load. main (example_py\<lparr>json_load := load\<rparr>) missing_file_argv example_world
              = main example_py missing_file_argv example_world)"
    by blast
  from a b c show ?thesis by blast
qed

text \<open>
  Without the restriction to accepted command lines the claim fails: the category-id
  argument \<open>-x,2\<close> has the token \<open>-x\<close>, which is no integer, but \<^verbatim>\<open>parse_args\<close> takes the
  argument for an option it does not know and the process exits with code 2.
\<close>

theorem command_line_errors_counterexample:
  "split_comma ''-x,2'' = [''-x'', ''2'']
   \<and> int_of_stripped example_py ''-x'' = None
   \<and> fst (main example_py [''in.json'', ''-x,2''] example_world) = 2"
  by (simp add: main_def parse_args_def plain_def verbose_flag_def unknown_option_def
        example_py_def example_world_def)

text \<open>The two messages in full.\<close>

lemma scenario_C:
  "main example_py bad_ids_argv example_world
     = (1, example_world\<lparr>stderr := [''Error: Category IDs must be integers separated by commas'']\<rparr>)"
  by (simp add: main_def example_parse main_parsed_def)
     (simp add: example_py_def example_world_def print_err_def)

lemma scenario_D:
  "main example_py missing_file_argv example_world
     = (1, example_world\<lparr>stderr := [''Error: Annotation file not found: missing.json'']\<rparr>)"
  by (simp add: main_def example_parse main_parsed_def)
     (simp add: example_py_def example_world_def path_exists_def print_err_def)

text \<open>
  The whole program on the example, with \<^verbatim>\<open>--verbose\<close>: exit code 0, the summary and the
  removed categories on standard output.
\<close>

lemma example_main:
  "main example_py verbose_argv example_world =
     (0, example_world
           \<lparr>files := (files example_world)
                       (''out.json'' := Regular (three_categories_cleaned, Some 2)),
            stdout :=
              [CHR 0xE2 # CHR 0x9C # CHR 0x93 # '' Successfully cleaned annotation file'',
               ''  Categories removed: 2 (from 3 to 1)'',
               ''  Annotations removed: 2 (from 4 to 2)'',
               ''  Output file: out.json'',
               CHR 0x0A # ''Removed categories:'',
               ''  - ID 0: a (supercategory: none)'',
               ''  - ID 39: c (supercategory: none)'']\<rparr>)"
proof -
  have ids: "int_of_stripped example_py ''0'' = Some 0" "int_of_stripped example_py ''39'' = Some 39"
    by (simp_all add: example_py_def)
  have ex: "path_exists example_world ''in.json''"
    by (simp add: path_exists_def example_world_def)
  have n: "show_nat (Suc 0) = ''1''" "show_nat 2 = ''2''" "show_nat 3 = ''3''"
    "show_nat 4 = ''4''"
    by (simp_all add: show_nat.simps)
  show ?thesis
    by (simp add: main_def example_parse main_parsed_def ids ex example_run Let_def)
       (simp add: print_summary_def print_out_def example_stats_def n
          removed_line_def category_def example_py_def example_world_def show_nat.simps)
qed

end
